theory Spec2Isabelle
  imports Main "HOL-Library.Sublist"
begin

section \<open>Location import job: State, City and Branch/DC hierarchy\<close>

text \<open>
  A shallow embedding of \<^verbatim>\<open>src/jobs/location_import.py\<close>: the class
  \<^verbatim>\<open>LocationImportJob\<close> with its methods \<^verbatim>\<open>normalize_state\<close>,
  \<^verbatim>\<open>get_location_type\<close> and \<^verbatim>\<open>run\<close>, and the table
  \<^verbatim>\<open>STATE_MAPPING\<close>.

  The job talks to an inventory store through an ORM (\<^verbatim>\<open>objects.get\<close>,
  \<^verbatim>\<open>objects.get_or_create\<close>, \<^verbatim>\<open>save\<close>) and to a logger. Both are
  state here: a record \<open>store\<close> that every operation takes and returns. Exceptions are
  values of the type \<open>exn\<close>; an operation that can raise returns \<open>exn + 'a\<close>, and an
  operation that can raise after it has written returns the store as well.
\<close>

subsection \<open>Python strings\<close>

text \<open>
  In the store, the rows and the log a string is a list of characters of one byte. The
  case functions below are Python's on ASCII text: a cased character is an ASCII letter,
  and every other character is left as it is.
\<close>

definition is_lower :: "char \<Rightarrow> bool" where
  "is_lower c \<longleftrightarrow> (97::nat) \<le> of_char c \<and> of_char c \<le> (122::nat)"

definition is_upper :: "char \<Rightarrow> bool" where
  "is_upper c \<longleftrightarrow> (65::nat) \<le> of_char c \<and> of_char c \<le> (90::nat)"

definition is_cased :: "char \<Rightarrow> bool" where
  "is_cased c \<longleftrightarrow> is_lower c \<or> is_upper c"

definition to_upper :: "char \<Rightarrow> char" where
  "to_upper c = (if is_lower c then char_of (of_char c - (32::nat)) else c)"

definition to_lower :: "char \<Rightarrow> char" where
  "to_lower c = (if is_upper c then char_of (of_char c + (32::nat)) else c)"

text \<open>
  \<^verbatim>\<open>str.title()\<close>: one pass over the string that remembers whether the character
  before was cased. A character after a cased one is lowercased, any other character is
  titlecased (for an ASCII letter: uppercased).
\<close>

fun do_title :: "bool \<Rightarrow> string \<Rightarrow> string" where
  "do_title previous_is_cased [] = []"
| "do_title previous_is_cased (c # cs) =
     (if previous_is_cased then to_lower c else to_upper c) # do_title (is_cased c) cs"

definition title :: "string \<Rightarrow> string" where
  "title s = do_title False s"

text \<open>\<^verbatim>\<open>str.endswith(sfx)\<close>: the last \<open>length sfx\<close> characters are \<open>sfx\<close>.\<close>

definition endswith :: "string \<Rightarrow> string \<Rightarrow> bool" where
  "endswith s sfx \<longleftrightarrow> length sfx \<le> length s \<and> drop (length s - length sfx) s = sfx"

text \<open>\<^verbatim>\<open>str(n)\<close> for a natural number: its decimal digits.\<close>

definition digit_char :: "nat \<Rightarrow> char" where
  "digit_char d = char_of (48 + d)"

fun str_nat :: "nat \<Rightarrow> string" where
  "str_nat n = (if n < 10 then [digit_char n] else str_nat (n div 10) @ [digit_char (n mod 10)])"

declare str_nat.simps [simp del]

subsection \<open>The state abbreviation table and the normalizer\<close>

definition STATE_MAPPING :: "(string \<times> string) list" where
  "STATE_MAPPING =
    [(''AL'', ''Alabama''), (''AK'', ''Alaska''), (''AZ'', ''Arizona''), (''AR'', ''Arkansas''),
     (''CA'', ''California''), (''CO'', ''Colorado''), (''CT'', ''Connecticut''), (''DE'', ''Delaware''),
     (''FL'', ''Florida''), (''GA'', ''Georgia''), (''HI'', ''Hawaii''), (''ID'', ''Idaho''),
     (''IL'', ''Illinois''), (''IN'', ''Indiana''), (''IA'', ''Iowa''), (''KS'', ''Kansas''),
     (''KY'', ''Kentucky''), (''LA'', ''Louisiana''), (''ME'', ''Maine''), (''MD'', ''Maryland''),
     (''MA'', ''Massachusetts''), (''MI'', ''Michigan''), (''MN'', ''Minnesota''), (''MS'', ''Mississippi''),
     (''MO'', ''Missouri''), (''MT'', ''Montana''), (''NE'', ''Nebraska''), (''NV'', ''Nevada''),
     (''NH'', ''New Hampshire''), (''NJ'', ''New Jersey''), (''NM'', ''New Mexico''), (''NY'', ''New York''),
     (''NC'', ''North Carolina''), (''ND'', ''North Dakota''), (''OH'', ''Ohio''), (''OK'', ''Oklahoma''),
     (''OR'', ''Oregon''), (''PA'', ''Pennsylvania''), (''RI'', ''Rhode Island''), (''SC'', ''South Carolina''),
     (''SD'', ''South Dakota''), (''TN'', ''Tennessee''), (''TX'', ''Texas''), (''UT'', ''Utah''),
     (''VT'', ''Vermont''), (''VA'', ''Virginia''), (''WA'', ''Washington''), (''WV'', ''West Virginia''),
     (''WI'', ''Wisconsin''), (''WY'', ''Wyoming'')]"

text \<open>
  \<^verbatim>\<open>normalize_state\<close>: \<^verbatim>\<open>state in STATE_MAPPING\<close> is the dictionary's key
  test, \<^verbatim>\<open>STATE_MAPPING[state]\<close> its lookup. This is the normalizer the run below
  uses, on strings of bytes with the casing of ASCII text; the next subsection gives it
  on Python's strings.
\<close>

definition normalize_state :: "string \<Rightarrow> string" where
  "normalize_state state =
     (case map_of STATE_MAPPING state of
        Some full_name \<Rightarrow> full_name
      | None \<Rightarrow> title state)"

subsection \<open>The normalizer on Python's strings\<close>

text \<open>
  A Python string is a list of code points, and \<^verbatim>\<open>str.title()\<close> works with the case
  tables of Unicode. The tables are a parameter here: \<open>cased T c\<close> says whether the code
  point \<open>c\<close> is cased, \<open>to_title_full T c\<close> is its titlecase, one code point or several,
  and \<open>lower_ucs4 T data i c\<close> is the lowercase of \<open>c\<close> where it stands at position \<open>i\<close>
  of the string \<open>data\<close> (the lowercase of the Greek capital sigma depends on its
  neighbours). \<open>ustr\<close> reads a string of the table as code points.
\<close>

type_synonym ustring = "nat list"

definition ustr :: "string \<Rightarrow> ustring" where
  "ustr s = map of_char s"

record case_tables =
  cased :: "nat \<Rightarrow> bool"
  to_title_full :: "nat \<Rightarrow> nat list"
  lower_ucs4 :: "nat list \<Rightarrow> nat \<Rightarrow> nat \<Rightarrow> nat list"

text \<open>
  \<^verbatim>\<open>str.title()\<close>: one pass over the code points that remembers whether the code
  point before was cased. A code point after a cased one is lowercased, any other code
  point is titlecased.
\<close>

fun unicode_do_title :: "case_tables \<Rightarrow> ustring \<Rightarrow> bool \<Rightarrow> nat \<Rightarrow> ustring \<Rightarrow> ustring" where
  "unicode_do_title T data previous_is_cased i [] = []"
| "unicode_do_title T data previous_is_cased i (c # cs) =
     (if previous_is_cased then lower_ucs4 T data i c else to_title_full T c) @
     unicode_do_title T data (cased T c) (Suc i) cs"

definition unicode_title :: "case_tables \<Rightarrow> ustring \<Rightarrow> ustring" where
  "unicode_title T s = unicode_do_title T s False 0 s"

definition unicode_normalize_state :: "case_tables \<Rightarrow> ustring \<Rightarrow> ustring" where
  "unicode_normalize_state T state =
     (case map_of (map (\<lambda>(k, v). (ustr k, ustr v)) STATE_MAPPING) state of
        Some full_name \<Rightarrow> full_name
      | None \<Rightarrow> unicode_title T state)"

text \<open>
  The title-casing transform as the specification words it: the string is cut into words,
  a word being a largest run of cased code points (of letters), and each word gets its
  first letter capitalized, that is titlecased, and its other letters lowercased.
  Code points between words stay.
\<close>

fun lower_word :: "case_tables \<Rightarrow> ustring \<Rightarrow> nat \<Rightarrow> ustring \<Rightarrow> ustring" where
  "lower_word T data i [] = []"
| "lower_word T data i (c # cs) = lower_ucs4 T data i c @ lower_word T data (Suc i) cs"

fun capitalize_word :: "case_tables \<Rightarrow> ustring \<Rightarrow> nat \<Rightarrow> ustring \<Rightarrow> ustring" where
  "capitalize_word T data i [] = []"
| "capitalize_word T data i (c # cs) = to_title_full T c @ lower_word T data (Suc i) cs"

function spec_title_from :: "case_tables \<Rightarrow> ustring \<Rightarrow> nat \<Rightarrow> ustring \<Rightarrow> ustring" where
  "spec_title_from T data i [] = []"
| "spec_title_from T data i (c # cs) =
     (if cased T c
      then capitalize_word T data i (c # takeWhile (cased T) cs) @
           spec_title_from T data (Suc i + length (takeWhile (cased T) cs))
             (dropWhile (cased T) cs)
      else c # spec_title_from T data (Suc i) cs)"
  by pat_completeness auto
termination
  by (relation "measure (\<lambda>(T, data, i, s). length s)")
    (auto simp: less_Suc_eq_le length_dropWhile_le)

definition spec_title :: "case_tables \<Rightarrow> ustring \<Rightarrow> ustring" where
  "spec_title T s = spec_title_from T s 0 s"

text \<open>
  What the comparison of the two needs of the tables: a code point that is not cased is
  its own titlecase and its own lowercase. In Unicode a character that has a case mapping
  is cased, so Python's tables are such tables.
\<close>

definition uncased_unchanged :: "case_tables \<Rightarrow> bool" where
  "uncased_unchanged T \<longleftrightarrow>
     (\<forall>c. \<not> cased T c \<longrightarrow>
        to_title_full T c = [c] \<and> (\<forall>data i. lower_ucs4 T data i c = [c]))"

text \<open>
  Two such tables: one that cases the letters of ASCII only, and one that also cases
  \<open>U+00E9\<close> and \<open>U+00C9\<close>, the small and the capital e with acute.
\<close>

definition ascii_tables :: case_tables where
  "ascii_tables =
     \<lparr>cased = (\<lambda>c. 97 \<le> c \<and> c \<le> 122 \<or> 65 \<le> c \<and> c \<le> 90),
      to_title_full = (\<lambda>c. [if 97 \<le> c \<and> c \<le> 122 then c - 32 else c]),
      lower_ucs4 = (\<lambda>data i c. [if 65 \<le> c \<and> c \<le> 90 then c + 32 else c])\<rparr>"

definition e_acute_tables :: case_tables where
  "e_acute_tables =
     \<lparr>cased = (\<lambda>c. 97 \<le> c \<and> c \<le> 122 \<or> 65 \<le> c \<and> c \<le> 90 \<or> c = 233 \<or> c = 201),
      to_title_full =
        (\<lambda>c. [if 97 \<le> c \<and> c \<le> 122 then c - 32 else if c = 233 then 201 else c]),
      lower_ucs4 =
        (\<lambda>data i c. [if 65 \<le> c \<and> c \<le> 90 then c + 32 else if c = 201 then 233 else c])\<rparr>"

text \<open>
  \<open>no_upper_after previous_is_cased s\<close>: no uppercase letter of \<open>s\<close> follows a cased
  character (or starts \<open>s\<close> when \<open>previous_is_cased\<close> holds).
\<close>

fun no_upper_after :: "bool \<Rightarrow> string \<Rightarrow> bool" where
  "no_upper_after previous_is_cased [] = True"
| "no_upper_after previous_is_cased (c # cs) =
     ((previous_is_cased \<longrightarrow> \<not> is_upper c) \<and> no_upper_after (is_cased c) cs)"

subsection \<open>The store and the logger\<close>

text \<open>
  The primary key of a record is its position in its table: tables only grow, and
  \<^verbatim>\<open>save\<close> rewrites the record at its key. The job reads a
  \<^verbatim>\<open>LocationType\<close> and a \<^verbatim>\<open>Status\<close> by name only, so those two tables hold
  names. A \<^verbatim>\<open>Location\<close> has the four fields the job reads and writes; the foreign
  keys \<open>location_type\<close>, \<open>status\<close> and \<open>parent\<close> hold primary keys.
\<close>

record location =
  loc_name :: string
  location_type :: nat
  status :: nat
  parent :: "nat option"

datatype level = INFO | ERROR

record store =
  location_types :: "string list"
  statuses :: "string list"
  locations :: "location list"
  logger :: "(level \<times> string) list"

text \<open>
  The exceptions the job can meet: its own \<^verbatim>\<open>ValueError\<close>, a \<^verbatim>\<open>KeyError\<close>
  of a row without a column, and the two of \<^verbatim>\<open>objects.get\<close>, which carry the
  model's name (and the number of records found).
\<close>

datatype exn =
  ValueError string
| KeyError string
| DoesNotExist string
| MultipleObjectsReturned string nat

text \<open>\<^verbatim>\<open>str(e)\<close>, the message of an exception.\<close>

fun exn_str :: "exn \<Rightarrow> string" where
  "exn_str (ValueError msg) = msg"
| "exn_str (KeyError k) = [CHR 0x27] @ k @ [CHR 0x27]"
| "exn_str (DoesNotExist model) = model @ '' matching query does not exist.''"
| "exn_str (MultipleObjectsReturned model num) =
     ''get() returned more than one '' @ model @ '' -- it returned '' @
     (if num < 21 then str_nat num else ''more than 20'') @ ''!''"

text \<open>The primary keys of the records of a table that pass a filter, in key order.\<close>

definition find_pks :: "('a \<Rightarrow> bool) \<Rightarrow> 'a list \<Rightarrow> nat list" where
  "find_pks p table = filter (\<lambda>pk. p (table ! pk)) [0..<length table]"

text \<open>
  \<^verbatim>\<open>Model.objects.get(...)\<close>: the one record that passes the filter; no record and
  several records are the two exceptions.
\<close>

definition objects_get :: "string \<Rightarrow> ('a \<Rightarrow> bool) \<Rightarrow> 'a list \<Rightarrow> exn + nat" where
  "objects_get model p table =
     (case find_pks p table of
        [] \<Rightarrow> Inl (DoesNotExist model)
      | [pk] \<Rightarrow> Inr pk
      | pk # _ # _ \<Rightarrow> Inl (MultipleObjectsReturned model (length (find_pks p table))))"

text \<open>
  \<^verbatim>\<open>Location.objects.get_or_create(**kwargs, defaults=...)\<close>: \<open>p\<close> is the filter of
  the keyword arguments, \<open>new\<close> the record of the keyword arguments and the defaults. The
  result is the table, the key of the record and the \<^verbatim>\<open>created\<close> flag.
\<close>

definition get_or_create ::
  "(location \<Rightarrow> bool) \<Rightarrow> location \<Rightarrow> location list \<Rightarrow> exn + (location list \<times> nat \<times> bool)" where
  "get_or_create p new table =
     (case objects_get ''Location'' p table of
        Inr pk \<Rightarrow> Inr (table, pk, False)
      | Inl (DoesNotExist _) \<Rightarrow> Inr (table @ [new], length table, True)
      | Inl e \<Rightarrow> Inl e)"

definition log_info :: "string \<Rightarrow> store \<Rightarrow> store" where
  "log_info msg st = st\<lparr>logger := logger st @ [(INFO, msg)]\<rparr>"

definition log_error :: "string \<Rightarrow> store \<Rightarrow> store" where
  "log_error msg st = st\<lparr>logger := logger st @ [(ERROR, msg)]\<rparr>"

subsection \<open>The type classifier\<close>

definition get_location_type :: "string \<Rightarrow> store \<Rightarrow> exn + nat" where
  "get_location_type name st =
     (if endswith name ''-DC'' then
        objects_get ''LocationType'' (\<lambda>n. n = ''Data Center'') (location_types st)
      else if endswith name ''-BR'' then
        objects_get ''LocationType'' (\<lambda>n. n = ''Branch'') (location_types st)
      else Inl (ValueError (''Location name '' @ name @ '' must end with either -DC or -BR'')))"

subsection \<open>Rows\<close>

text \<open>
  A row of \<^verbatim>\<open>csv.DictReader\<close> is a dictionary from the header's column names to the
  line's fields. \<^verbatim>\<open>row[k]\<close> raises \<^verbatim>\<open>KeyError\<close> on a column the header does not
  have; \<^verbatim>\<open>row.get(k, d)\<close> gives \<open>d\<close> there. Every field is a string: a line with
  fewer fields than the header, whose missing fields the reader fills with
  \<^verbatim>\<open>None\<close>, is outside this model.
\<close>

type_synonym row = "string \<rightharpoonup> string"

definition row_item :: "row \<Rightarrow> string \<Rightarrow> exn + string" where
  "row_item r k = (case r k of None \<Rightarrow> Inl (KeyError k) | Some v \<Rightarrow> Inr v)"

definition row_get :: "row \<Rightarrow> string \<Rightarrow> string \<Rightarrow> string" where
  "row_get r k d = (case r k of None \<Rightarrow> d | Some v \<Rightarrow> v)"

definition csv_row :: "string \<Rightarrow> string \<Rightarrow> string \<Rightarrow> row" where
  "csv_row name city state = [''name'' \<mapsto> name, ''city'' \<mapsto> city, ''state'' \<mapsto> state]"

subsection \<open>The run\<close>

text \<open>The reference records \<^verbatim>\<open>run\<close> reads before its loop.\<close>

record refs =
  state_type :: nat
  city_type :: nat
  active_status :: nat

definition get_refs :: "store \<Rightarrow> exn + refs" where
  "get_refs st =
     (case objects_get ''LocationType'' (\<lambda>n. n = ''State'') (location_types st) of
        Inl e \<Rightarrow> Inl e
      | Inr st_ty \<Rightarrow>
     (case objects_get ''LocationType'' (\<lambda>n. n = ''City'') (location_types st) of
        Inl e \<Rightarrow> Inl e
      | Inr ci_ty \<Rightarrow>
     (case objects_get ''Status'' (\<lambda>n. n = ''Active'') (statuses st) of
        Inl e \<Rightarrow> Inl e
      | Inr act \<Rightarrow> Inr \<lparr>state_type = st_ty, city_type = ci_ty, active_status = act\<rparr>)))"

text \<open>Step 1 of a row (lines 71 to 77): get or create the State location.\<close>

definition resolve_state :: "refs \<Rightarrow> string \<Rightarrow> store \<Rightarrow> store \<times> (exn + nat)" where
  "resolve_state rf full_state_name st =
     (case get_or_create
             (\<lambda>l. loc_name l = full_state_name \<and> location_type l = state_type rf)
             \<lparr>loc_name = full_state_name, location_type = state_type rf,
              status = active_status rf, parent = None\<rparr>
             (locations st) of
        Inl e \<Rightarrow> (st, Inl e)
      | Inr (table, state_location, state_created) \<Rightarrow>
          (if state_created
           then log_info (''Created state location: '' @ full_state_name) (st\<lparr>locations := table\<rparr>)
           else st\<lparr>locations := table\<rparr>,
           Inr state_location))"

text \<open>Step 2 of a row (lines 80 to 87): get or create the City location.\<close>

definition resolve_city :: "refs \<Rightarrow> string \<Rightarrow> string \<Rightarrow> nat \<Rightarrow> store \<Rightarrow> store \<times> (exn + nat)" where
  "resolve_city rf city full_state_name state_location st =
     (case get_or_create
             (\<lambda>l. loc_name l = city \<and> location_type l = city_type rf \<and>
                  parent l = Some state_location)
             \<lparr>loc_name = city, location_type = city_type rf,
              status = active_status rf, parent = Some state_location\<rparr>
             (locations st) of
        Inl e \<Rightarrow> (st, Inl e)
      | Inr (table, city_location, city_created) \<Rightarrow>
          (if city_created
           then log_info (''Created city location: '' @ city @ '' in '' @ full_state_name)
                  (st\<lparr>locations := table\<rparr>)
           else st\<lparr>locations := table\<rparr>,
           Inr city_location))"

text \<open>
  Step 3 of a row after the classification (lines 91 to 112): get or create the site by
  its name, overwrite and save it when it was there, log the action.
\<close>

definition resolve_site ::
  "refs \<Rightarrow> nat \<Rightarrow> nat \<Rightarrow> string \<Rightarrow> string \<Rightarrow> string \<Rightarrow> store \<Rightarrow> store \<times> (exn + nat)" where
  "resolve_site rf loc_type city_location name city full_state_name st =
     (case get_or_create
             (\<lambda>l. loc_name l = name)
             \<lparr>loc_name = name, location_type = loc_type,
              status = active_status rf, parent = Some city_location\<rparr>
             (locations st) of
        Inl e \<Rightarrow> (st, Inl e)
      | Inr (table, site_location, site_created) \<Rightarrow>
          (let table' =
                 (if \<not> site_created
                  then table[site_location := (table ! site_location)
                         \<lparr>location_type := loc_type, status := active_status rf,
                          parent := Some city_location\<rparr>]
                  else table);
               action = (if site_created then ''Created'' else ''Updated'')
           in (log_info (action @ '' location: '' @ loc_name (table' ! site_location) @
                          '' in '' @ city @ '', '' @ full_state_name)
                 (st\<lparr>locations := table'\<rparr>),
               Inr site_location)))"

text \<open>The body of the \<^verbatim>\<open>try\<close> block (lines 69 to 112), in the order of the source.\<close>

definition row_body :: "refs \<Rightarrow> row \<Rightarrow> store \<Rightarrow> store \<times> (exn + nat)" where
  "row_body rf r st =
     (case row_item r ''state'' of
        Inl e \<Rightarrow> (st, Inl e)
      | Inr state \<Rightarrow>
     (case resolve_state rf (normalize_state state) st of
        (st1, Inl e) \<Rightarrow> (st1, Inl e)
      | (st1, Inr state_location) \<Rightarrow>
     (case row_item r ''city'' of
        Inl e \<Rightarrow> (st1, Inl e)
      | Inr city \<Rightarrow>
     (case resolve_city rf city (normalize_state state) state_location st1 of
        (st2, Inl e) \<Rightarrow> (st2, Inl e)
      | (st2, Inr city_location) \<Rightarrow>
     (case row_item r ''name'' of
        Inl e \<Rightarrow> (st2, Inl e)
      | Inr name \<Rightarrow>
     (case get_location_type name st2 of
        Inl e \<Rightarrow> (st2, Inl e)
      | Inr loc_type \<Rightarrow>
          resolve_site rf loc_type city_location name city (normalize_state state) st2))))))"

text \<open>
  The \<^verbatim>\<open>try\<close> with its handler (lines 114 to 118): log the row's name and the
  message, raise again.
\<close>

definition process_row :: "refs \<Rightarrow> row \<Rightarrow> store \<Rightarrow> store \<times> (exn + nat)" where
  "process_row rf r st =
     (case row_body rf r st of
        (st', Inl e) \<Rightarrow>
          (log_error (''Error processing location '' @ row_get r ''name'' [] @ '': '' @ exn_str e) st',
           Inl e)
      | (st', Inr site_location) \<Rightarrow> (st', Inr site_location))"

text \<open>
  The loop over the rows; \<open>created_or_updated\<close> holds the keys of the sites in the order
  they were appended.
\<close>

fun run_rows :: "refs \<Rightarrow> row list \<Rightarrow> nat list \<Rightarrow> store \<Rightarrow> store \<times> (exn + nat list)" where
  "run_rows rf [] created_or_updated st = (st, Inr created_or_updated)"
| "run_rows rf (r # rs) created_or_updated st =
     (case process_row rf r st of
        (st', Inl e) \<Rightarrow> (st', Inl e)
      | (st', Inr site_location) \<Rightarrow> run_rows rf rs (created_or_updated @ [site_location]) st')"

text \<open>
  \<^verbatim>\<open>run\<close> up to its last line: the reference records (lines 59 to 63), then the
  loop. The rows are the ones the reader of lines 55 and 56 yields, in file order; the
  parsing of the text is the standard library's and is not modelled.
\<close>

definition run_collect :: "row list \<Rightarrow> store \<Rightarrow> store \<times> (exn + nat list)" where
  "run_collect rows st =
     (case get_refs st of
        Inl e \<Rightarrow> (st, Inl e)
      | Inr rf \<Rightarrow> run_rows rf rows [] st)"

definition summary :: "nat list \<Rightarrow> string" where
  "summary created_or_updated =
     ''Successfully processed '' @ str_nat (length created_or_updated) @ '' locations''"

definition run :: "row list \<Rightarrow> store \<Rightarrow> store \<times> (exn + string)" where
  "run rows st =
     (case run_collect rows st of
        (st', Inl e) \<Rightarrow> (st', Inl e)
      | (st', Inr created_or_updated) \<Rightarrow> (st', Inr (summary created_or_updated)))"

subsection \<open>Predicates on stores and rows\<close>

text \<open>
  \<open>grows st st'\<close>: the reference tables are the same, every location of \<open>st\<close> is in
  \<open>st'\<close> under its key with its name, and the log of \<open>st\<close> is the start of the log of
  \<open>st'\<close>.
\<close>

definition grows :: "store \<Rightarrow> store \<Rightarrow> bool" where
  "grows st st' \<longleftrightarrow>
     location_types st' = location_types st \<and> statuses st' = statuses st \<and>
     prefix (map loc_name (locations st)) (map loc_name (locations st')) \<and>
     prefix (logger st) (logger st')"

text \<open>
  \<open>apart r r'\<close>: the site name of \<open>r'\<close> is neither the city of \<open>r\<close> nor the normalized
  state of \<open>r\<close>. \<open>names_apart rows\<close>: this holds for every two rows of the list, a row
  and itself included, so that no site of the CSV has the name of a City or of a State of
  the CSV.
\<close>

definition apart :: "row \<Rightarrow> row \<Rightarrow> bool" where
  "apart r r' \<longleftrightarrow>
     (case r' ''name'' of
        None \<Rightarrow> True
      | Some name \<Rightarrow> r ''city'' \<noteq> Some name \<and>
                     map_option normalize_state (r ''state'') \<noteq> Some name)"

definition names_apart :: "row list \<Rightarrow> bool" where
  "names_apart rows \<longleftrightarrow> list_all (\<lambda>r. list_all (apart r) rows) rows"

text \<open>
  \<open>cities_apart rows\<close>: no site name of the rows is the city of a row of the list, the
  same row included.
\<close>

definition cities_apart :: "row list \<Rightarrow> bool" where
  "cities_apart rows \<longleftrightarrow>
     list_all (\<lambda>r. list_all (\<lambda>r'. case r ''city'' of
                                      None \<Rightarrow> True
                                    | Some city \<Rightarrow> r' ''name'' \<noteq> Some city) rows) rows"

text \<open>
  \<open>resolved rf st state city name s c site t\<close>: in the store \<open>st\<close> the three lookups of a
  row with these fields find one record each, the State \<open>s\<close>, the City \<open>c\<close> under \<open>s\<close>
  and the site \<open>site\<close>, and the name is classified as the type \<open>t\<close>.
\<close>

definition resolved ::
  "refs \<Rightarrow> store \<Rightarrow> string \<Rightarrow> string \<Rightarrow> string \<Rightarrow> nat \<Rightarrow> nat \<Rightarrow> nat \<Rightarrow> nat \<Rightarrow> bool" where
  "resolved rf st state city name s c site t \<longleftrightarrow>
     find_pks (\<lambda>l. loc_name l = normalize_state state \<and> location_type l = state_type rf)
       (locations st) = [s] \<and>
     find_pks (\<lambda>l. loc_name l = city \<and> location_type l = city_type rf \<and> parent l = Some s)
       (locations st) = [c] \<and>
     find_pks (\<lambda>l. loc_name l = name) (locations st) = [site] \<and>
     get_location_type name st = Inr t"

text \<open>The log line of a row whose site was there.\<close>

definition updated_line :: "row \<Rightarrow> level \<times> string" where
  "updated_line r =
     (INFO, ''Updated location: '' @ row_get r ''name'' [] @ '' in '' @ row_get r ''city'' [] @
            '', '' @ normalize_state (row_get r ''state'' []))"

subsection \<open>Example stores and rows\<close>

text \<open>
  A store with the reference data only: the four location types and the status, no
  location, an empty log; and the reference records \<^verbatim>\<open>run\<close> reads from it.
\<close>

definition reference_store :: store where
  "reference_store =
     \<lparr>location_types = [''State'', ''City'', ''Data Center'', ''Branch''],
      statuses = [''Active''], locations = [], logger = []\<rparr>"

definition reference_refs :: refs where
  "reference_refs = \<lparr>state_type = 0, city_type = 1, active_status = 0\<rparr>"

text \<open>A store without the location type State, and one without Data Center.\<close>

definition no_state_type_store :: store where
  "no_state_type_store =
     \<lparr>location_types = [''City'', ''Data Center'', ''Branch''],
      statuses = [''Active''], locations = [], logger = []\<rparr>"

definition no_dc_type_store :: store where
  "no_dc_type_store =
     \<lparr>location_types = [''State'', ''City'', ''Branch''],
      statuses = [''Active''], locations = [], logger = []\<rparr>"

text \<open>
  The rows of the CSV
  \<^verbatim>\<open>name,city,state / HQ-DC,Austin,TX / BR1-BR,Austin,TX\<close>.
\<close>

definition hq_rows :: "row list" where
  "hq_rows = [csv_row ''HQ-DC'' ''Austin'' ''TX'', csv_row ''BR1-BR'' ''Austin'' ''TX'']"

text \<open>The rows (HQ-BR, Austin, TX), (BADNAME, Denver, CO) and (HQ-BR, Denver, CO).\<close>

definition hq_br_austin :: row where
  "hq_br_austin = csv_row ''HQ-BR'' ''Austin'' ''TX''"

definition badname_denver :: row where
  "badname_denver = csv_row ''BADNAME'' ''Denver'' ''CO''"

definition hq_br_denver :: row where
  "hq_br_denver = csv_row ''HQ-BR'' ''Denver'' ''CO''"

text \<open>The store after Texas and Austin have been created.\<close>

definition texas_store :: store where
  "texas_store =
     \<lparr>location_types = [''State'', ''City'', ''Data Center'', ''Branch''],
      statuses = [''Active''],
      locations =
        [\<lparr>loc_name = ''Texas'', location_type = 0, status = 0, parent = None\<rparr>,
         \<lparr>loc_name = ''Austin'', location_type = 1, status = 0, parent = Some 0\<rparr>],
      logger = []\<rparr>"

text \<open>
  The store after the row (HQ-BR, Austin, TX) has run on the reference store, that store
  after steps 1 and 2 of the row (HQ-BR, Denver, CO), and the store after both rows.
\<close>

definition austin_site_store :: store where
  "austin_site_store =
     \<lparr>location_types = [''State'', ''City'', ''Data Center'', ''Branch''],
      statuses = [''Active''],
      locations =
        [\<lparr>loc_name = ''Texas'', location_type = 0, status = 0, parent = None\<rparr>,
         \<lparr>loc_name = ''Austin'', location_type = 1, status = 0, parent = Some 0\<rparr>,
         \<lparr>loc_name = ''HQ-BR'', location_type = 3, status = 0, parent = Some 1\<rparr>],
      logger =
        [(INFO, ''Created state location: Texas''),
         (INFO, ''Created city location: Austin in Texas''),
         (INFO, ''Created location: HQ-BR in Austin, Texas'')]\<rparr>"

definition denver_city_store :: store where
  "denver_city_store =
     \<lparr>location_types = [''State'', ''City'', ''Data Center'', ''Branch''],
      statuses = [''Active''],
      locations =
        [\<lparr>loc_name = ''Texas'', location_type = 0, status = 0, parent = None\<rparr>,
         \<lparr>loc_name = ''Austin'', location_type = 1, status = 0, parent = Some 0\<rparr>,
         \<lparr>loc_name = ''HQ-BR'', location_type = 3, status = 0, parent = Some 1\<rparr>,
         \<lparr>loc_name = ''Colorado'', location_type = 0, status = 0, parent = None\<rparr>,
         \<lparr>loc_name = ''Denver'', location_type = 1, status = 0, parent = Some 3\<rparr>],
      logger =
        [(INFO, ''Created state location: Texas''),
         (INFO, ''Created city location: Austin in Texas''),
         (INFO, ''Created location: HQ-BR in Austin, Texas''),
         (INFO, ''Created state location: Colorado''),
         (INFO, ''Created city location: Denver in Colorado'')]\<rparr>"

definition relocated_store :: store where
  "relocated_store =
     \<lparr>location_types = [''State'', ''City'', ''Data Center'', ''Branch''],
      statuses = [''Active''],
      locations =
        [\<lparr>loc_name = ''Texas'', location_type = 0, status = 0, parent = None\<rparr>,
         \<lparr>loc_name = ''Austin'', location_type = 1, status = 0, parent = Some 0\<rparr>,
         \<lparr>loc_name = ''HQ-BR'', location_type = 3, status = 0, parent = Some 4\<rparr>,
         \<lparr>loc_name = ''Colorado'', location_type = 0, status = 0, parent = None\<rparr>,
         \<lparr>loc_name = ''Denver'', location_type = 1, status = 0, parent = Some 3\<rparr>],
      logger =
        [(INFO, ''Created state location: Texas''),
         (INFO, ''Created city location: Austin in Texas''),
         (INFO, ''Created location: HQ-BR in Austin, Texas''),
         (INFO, ''Created state location: Colorado''),
         (INFO, ''Created city location: Denver in Colorado''),
         (INFO, ''Updated location: HQ-BR in Denver, Colorado'')]\<rparr>"

text \<open>
  The three rows together, of which the second cannot be classified, and the store their
  run on the reference store leaves when it aborts there.
\<close>

definition abort_rows :: "row list" where
  "abort_rows = [hq_br_austin, badname_denver, hq_br_denver]"

definition aborted_store :: store where
  "aborted_store =
     \<lparr>location_types = [''State'', ''City'', ''Data Center'', ''Branch''],
      statuses = [''Active''],
      locations =
        [\<lparr>loc_name = ''Texas'', location_type = 0, status = 0, parent = None\<rparr>,
         \<lparr>loc_name = ''Austin'', location_type = 1, status = 0, parent = Some 0\<rparr>,
         \<lparr>loc_name = ''HQ-BR'', location_type = 3, status = 0, parent = Some 1\<rparr>,
         \<lparr>loc_name = ''Colorado'', location_type = 0, status = 0, parent = None\<rparr>,
         \<lparr>loc_name = ''Denver'', location_type = 1, status = 0, parent = Some 3\<rparr>],
      logger =
        [(INFO, ''Created state location: Texas''),
         (INFO, ''Created city location: Austin in Texas''),
         (INFO, ''Created location: HQ-BR in Austin, Texas''),
         (INFO, ''Created state location: Colorado''),
         (INFO, ''Created city location: Denver in Colorado''),
         (ERROR, ''Error processing location BADNAME: Location name BADNAME must end with either -DC or -BR'')]\<rparr>"

text \<open>
  The row (X-DC, X-DC, TX), whose city has the name of its site, the store after its
  first run on the reference store and the store after its second run.
\<close>

definition x_dc_row :: row where
  "x_dc_row = csv_row ''X-DC'' ''X-DC'' ''TX''"

definition x_dc_store :: store where
  "x_dc_store =
     \<lparr>location_types = [''State'', ''City'', ''Data Center'', ''Branch''],
      statuses = [''Active''],
      locations =
        [\<lparr>loc_name = ''Texas'', location_type = 0, status = 0, parent = None\<rparr>,
         \<lparr>loc_name = ''X-DC'', location_type = 2, status = 0, parent = Some 1\<rparr>],
      logger =
        [(INFO, ''Created state location: Texas''),
         (INFO, ''Created city location: X-DC in Texas''),
         (INFO, ''Updated location: X-DC in X-DC, Texas'')]\<rparr>"

definition x_dc_store_again :: store where
  "x_dc_store_again =
     \<lparr>location_types = [''State'', ''City'', ''Data Center'', ''Branch''],
      statuses = [''Active''],
      locations =
        [\<lparr>loc_name = ''Texas'', location_type = 0, status = 0, parent = None\<rparr>,
         \<lparr>loc_name = ''X-DC'', location_type = 2, status = 0, parent = Some 1\<rparr>,
         \<lparr>loc_name = ''X-DC'', location_type = 1, status = 0, parent = Some 0\<rparr>],
      logger =
        [(INFO, ''Created state location: Texas''),
         (INFO, ''Created city location: X-DC in Texas''),
         (INFO, ''Updated location: X-DC in X-DC, Texas''),
         (INFO, ''Created city location: X-DC in Texas''),
         (ERROR, ''Error processing location X-DC: get() returned more than one Location -- it returned 2!'')]\<rparr>"

section \<open>Properties\<close>

subsection \<open>Strings\<close>

lemma endswith_iff: "endswith s sfx \<longleftrightarrow> (\<exists>p. s = p @ sfx)"
proof
  assume "endswith s sfx"
  then have "s = take (length s - length sfx) s @ sfx"
    by (metis append_take_drop_id endswith_def)
  then show "\<exists>p. s = p @ sfx" ..
next
  assume "\<exists>p. s = p @ sfx"
  then show "endswith s sfx" by (auto simp: endswith_def)
qed

lemma endswith_suffix: "endswith s sfx \<longleftrightarrow> suffix sfx s"
  by (simp add: endswith_iff suffix_def)

lemma endswith_DC_not_BR: "endswith name ''-DC'' \<Longrightarrow> \<not> endswith name ''-BR''"
  by (auto simp: endswith_def)

subsection \<open>The state normalizer\<close>

lemma STATE_MAPPING_distinct: "distinct (map fst STATE_MAPPING)"
  by (simp add: STATE_MAPPING_def)

text \<open>
  After a cased code point, \<^verbatim>\<open>title\<close> lowercases the rest of the word and starts
  again behind it; so its one pass does what the specification says word by word.
\<close>

lemma unicode_do_title_after_cased:
  assumes "uncased_unchanged T"
  shows "unicode_do_title T data True i cs =
     lower_word T data i (takeWhile (cased T) cs) @
     unicode_do_title T data False (i + length (takeWhile (cased T) cs)) (dropWhile (cased T) cs)"
  using assms by (induction cs arbitrary: i) (simp_all add: uncased_unchanged_def)

lemma unicode_do_title_spec:
  "uncased_unchanged T \<Longrightarrow> unicode_do_title T data False i s = spec_title_from T data i s"
proof (induction T data i s rule: spec_title_from.induct)
  case (1 T data i)
  show ?case by simp
next
  case (2 T data i c cs)
  show ?case
  proof (cases "cased T c")
    case True
    have "unicode_do_title T data False i (c # cs) =
        to_title_full T c @ unicode_do_title T data True (Suc i) cs"
      using True by simp
    also have "unicode_do_title T data True (Suc i) cs =
        lower_word T data (Suc i) (takeWhile (cased T) cs) @
        unicode_do_title T data False (Suc i + length (takeWhile (cased T) cs))
          (dropWhile (cased T) cs)"
      using "2.prems" by (rule unicode_do_title_after_cased)
    also have "unicode_do_title T data False (Suc i + length (takeWhile (cased T) cs))
          (dropWhile (cased T) cs) =
        spec_title_from T data (Suc i + length (takeWhile (cased T) cs))
          (dropWhile (cased T) cs)"
      using True "2.prems" by (rule "2.IH"(1))
    finally show ?thesis using True by simp
  next
    case False
    with 2 show ?thesis by (simp add: uncased_unchanged_def)
  qed
qed

lemma uncased_unchanged_ascii: "uncased_unchanged ascii_tables"
  by (auto simp: uncased_unchanged_def ascii_tables_def)

lemma uncased_unchanged_e_acute: "uncased_unchanged e_acute_tables"
  by (auto simp: uncased_unchanged_def e_acute_tables_def)

lemma inj_ustr: "ustr a = ustr b \<longleftrightarrow> a = b"
  by (simp add: ustr_def inj_map_eq_map inj_on_def)

lemma map_of_ustr:
  "map_of (map (\<lambda>(k, v). (ustr k, ustr v)) xs) (ustr k) = map_option ustr (map_of xs k)"
  by (induction xs) (auto simp: inj_ustr)

lemma map_of_ustr_None:
  "state \<notin> ustr ` fst ` set xs \<Longrightarrow> map_of (map (\<lambda>(k, v). (ustr k, ustr v)) xs) state = None"
  by (induction xs) auto

text \<open>
  Claim C4. The table has 50 entries with 50 different keys. On a key of the table the
  normalizer returns the full name of that entry, whatever the case tables are; the keys
  are compared as they are written, so \<open>tx\<close> is no key (what the docstring says, that
  a state abbreviation is converted to the full name, holds for the 50 keys as written
  only). On
  any other string it returns \<^verbatim>\<open>state.title()\<close>, and with case tables in which a
  code point without case is left alone, as in Unicode's, that is the string with each
  word's first letter capitalized and the other letters of the word lowercased, a word
  being a largest run of letters. The function takes no store and returns a string for
  every string: it has no effect and no error.
\<close>

theorem normalize_state_table_or_title:
  "length STATE_MAPPING = 50 \<and> distinct (map fst STATE_MAPPING) \<and>
   (\<forall>(abbreviation, full_name) \<in> set STATE_MAPPING.
      unicode_normalize_state T (ustr abbreviation) = ustr full_name) \<and>
   (state \<notin> ustr ` fst ` set STATE_MAPPING \<longrightarrow>
      unicode_normalize_state T state = unicode_title T state) \<and>
   (uncased_unchanged T \<and> state \<notin> ustr ` fst ` set STATE_MAPPING \<longrightarrow>
      unicode_normalize_state T state = spec_title T state)"
proof -
  have "length STATE_MAPPING = 50"
    by (simp add: STATE_MAPPING_def)
  moreover have "state \<notin> ustr ` fst ` set STATE_MAPPING \<longrightarrow>
      unicode_normalize_state T state = unicode_title T state"
    by (simp add: unicode_normalize_state_def map_of_ustr_None)
  moreover have "\<forall>(abbreviation, full_name) \<in> set STATE_MAPPING.
      unicode_normalize_state T (ustr abbreviation) = ustr full_name"
    using STATE_MAPPING_distinct by (auto simp: unicode_normalize_state_def map_of_ustr)
  moreover have "uncased_unchanged T \<and> state \<notin> ustr ` fst ` set STATE_MAPPING \<longrightarrow>
      unicode_normalize_state T state = spec_title T state"
    by (simp add: unicode_normalize_state_def map_of_ustr_None unicode_title_def spec_title_def
        unicode_do_title_spec)
  ultimately show ?thesis
    using STATE_MAPPING_distinct by blast
qed

theorem normalize_state_table_or_title_witness:
  "unicode_normalize_state ascii_tables (ustr ''TX'') = ustr ''Texas'' \<and>
   unicode_normalize_state ascii_tables (ustr ''CA'') = ustr ''California'' \<and>
   unicode_normalize_state ascii_tables (ustr ''tx'') = ustr ''Tx'' \<and>
   unicode_normalize_state ascii_tables (ustr ''texas'') = ustr ''Texas'' \<and>
   unicode_normalize_state ascii_tables (ustr ''new york'') = ustr ''New York'' \<and>
   unicode_normalize_state e_acute_tables [113, 117, 233, 98, 101, 99] =
     [81, 117, 233, 98, 101, 99]"
proof -
  have tx: "(''TX'', ''Texas'') \<in> set STATE_MAPPING"
    and ca: "(''CA'', ''California'') \<in> set STATE_MAPPING"
    by (simp_all add: STATE_MAPPING_def)
  have keys: "ustr ` fst ` set STATE_MAPPING = set (map (ustr \<circ> fst) STATE_MAPPING)"
    by auto
  have out: "ustr ''tx'' \<notin> ustr ` fst ` set STATE_MAPPING"
    "ustr ''texas'' \<notin> ustr ` fst ` set STATE_MAPPING"
    "ustr ''new york'' \<notin> ustr ` fst ` set STATE_MAPPING"
    "[113, 117, 233, 98, 101, 99] \<notin> ustr ` fst ` set STATE_MAPPING"
    unfolding keys by code_simp+
  have ev: "spec_title ascii_tables (ustr ''tx'') = ustr ''Tx''"
    "spec_title ascii_tables (ustr ''texas'') = ustr ''Texas''"
    "spec_title ascii_tables (ustr ''new york'') = ustr ''New York''"
    "spec_title e_acute_tables [113, 117, 233, 98, 101, 99] = [81, 117, 233, 98, 101, 99]"
    by code_simp+
  from tx ca out ev uncased_unchanged_ascii uncased_unchanged_e_acute show ?thesis
    using normalize_state_table_or_title [of ascii_tables "ustr ''tx''"]
      normalize_state_table_or_title [of ascii_tables "ustr ''texas''"]
      normalize_state_table_or_title [of ascii_tables "ustr ''new york''"]
      normalize_state_table_or_title [of e_acute_tables "[113, 117, 233, 98, 101, 99]"]
    by auto
qed

text \<open>
  The normalizer of the run, on strings of bytes, is this normalizer with the tables that
  case the letters of ASCII.
\<close>

lemma of_char_to_upper:
  "(of_char (to_upper c) :: nat) =
     (if (97::nat) \<le> of_char c \<and> of_char c \<le> (122::nat) then of_char c - 32 else of_char c)"
  by (auto simp: to_upper_def is_lower_def)

lemma of_char_to_lower:
  "(of_char (to_lower c) :: nat) =
     (if (65::nat) \<le> of_char c \<and> of_char c \<le> (90::nat) then of_char c + 32 else of_char c)"
  by (auto simp: to_lower_def is_upper_def)

lemma do_title_ascii:
  "ustr (do_title prev s) = unicode_do_title ascii_tables data prev i (ustr s)"
  by (induction s arbitrary: prev i)
    (simp_all add: ustr_def ascii_tables_def of_char_to_upper of_char_to_lower is_cased_def
      is_lower_def is_upper_def)

lemma normalize_state_ascii:
  "ustr (normalize_state s) = unicode_normalize_state ascii_tables (ustr s)"
  by (simp add: normalize_state_def unicode_normalize_state_def map_of_ustr title_def
      unicode_title_def do_title_ascii split: option.splits)

subsection \<open>Lookups in a table\<close>

lemma find_pks_set: "set (find_pks p table) = {pk. pk < length table \<and> p (table ! pk)}"
  by (auto simp: find_pks_def)

lemma objects_get_Inr: "objects_get model p table = Inr pk \<longleftrightarrow> find_pks p table = [pk]"
  by (auto simp: objects_get_def split: list.splits)

lemma find_pks_single: "find_pks p table = [pk] \<Longrightarrow> pk < length table \<and> p (table ! pk)"
  using find_pks_set [of p table] by auto

subsection \<open>The type classifier\<close>

text \<open>
  Claim C3. In a store that resolves the names \<open>''Data Center''\<close> and \<open>''Branch''\<close> to
  the type records \<open>dc\<close> and \<open>br\<close>: a name that ends in \<open>''-DC''\<close> is classified as
  \<open>dc\<close>, a name that ends in \<open>''-BR''\<close> as \<open>br\<close>, any other name raises the
  \<^verbatim>\<open>ValueError\<close> whose message holds the name, and no other value is ever returned.
  The two records are the ones with those names, and they differ.
\<close>

theorem get_location_type_by_suffix:
  assumes "objects_get ''LocationType'' (\<lambda>n. n = ''Data Center'') (location_types st) = Inr dc"
    and "objects_get ''LocationType'' (\<lambda>n. n = ''Branch'') (location_types st) = Inr br"
  shows "(endswith name ''-DC'' \<longrightarrow> get_location_type name st = Inr dc) \<and>
         (endswith name ''-BR'' \<longrightarrow> get_location_type name st = Inr br) \<and>
         (\<not> endswith name ''-DC'' \<and> \<not> endswith name ''-BR'' \<longrightarrow>
            get_location_type name st =
              Inl (ValueError (''Location name '' @ name @ '' must end with either -DC or -BR''))) \<and>
         (\<forall>t. get_location_type name st = Inr t \<longrightarrow> t = dc \<or> t = br) \<and>
         location_types st ! dc = ''Data Center'' \<and> location_types st ! br = ''Branch'' \<and>
         dc \<noteq> br"
proof -
  from assms have "location_types st ! dc = ''Data Center''" "location_types st ! br = ''Branch''"
    by (auto simp: objects_get_Inr dest: find_pks_single)
  moreover from this have "dc \<noteq> br" by auto
  ultimately show ?thesis
    using assms endswith_DC_not_BR [of name] by (auto simp: get_location_type_def)
qed

theorem get_location_type_by_suffix_witness:
  "get_location_type ''HQ-DC'' reference_store = Inr 2 \<and>
   get_location_type ''BR1-BR'' reference_store = Inr 3 \<and>
   get_location_type ''SITE1'' reference_store =
     Inl (ValueError ''Location name SITE1 must end with either -DC or -BR'')"
proof -
  have dc: "objects_get ''LocationType'' (\<lambda>n. n = ''Data Center'')
              (location_types reference_store) = Inr 2"
    and br: "objects_get ''LocationType'' (\<lambda>n. n = ''Branch'')
              (location_types reference_store) = Inr 3"
    by (simp_all add: reference_store_def objects_get_def find_pks_def)
  have "endswith ''HQ-DC'' ''-DC''" "endswith ''BR1-BR'' ''-BR''"
    "\<not> endswith ''SITE1'' ''-DC''" "\<not> endswith ''SITE1'' ''-BR''"
    by (simp_all add: endswith_def)
  then show ?thesis
    using get_location_type_by_suffix [OF dc br, of "''HQ-DC''"]
      get_location_type_by_suffix [OF dc br, of "''BR1-BR''"]
      get_location_type_by_suffix [OF dc br, of "''SITE1''"]
    by simp
qed

subsection \<open>Filters, appended records and saved records\<close>

lemma find_pks_Nil: "find_pks p table = [] \<longleftrightarrow> (\<forall>pk < length table. \<not> p (table ! pk))"
  by (auto simp: find_pks_def filter_empty_conv)

lemma distinct_set_single: "distinct xs \<Longrightarrow> set xs = {a} \<Longrightarrow> xs = [a]"
  by (cases xs) (auto simp: subset_singleton_iff)

lemma find_pks_one:
  "find_pks p table = [pk] \<longleftrightarrow>
     pk < length table \<and> p (table ! pk) \<and> (\<forall>j < length table. p (table ! j) \<longrightarrow> j = pk)"
proof
  assume "find_pks p table = [pk]"
  with find_pks_set [of p table]
  have "{j. j < length table \<and> p (table ! j)} = {pk}" by simp
  then show "pk < length table \<and> p (table ! pk) \<and> (\<forall>j < length table. p (table ! j) \<longrightarrow> j = pk)"
    by blast
next
  assume "pk < length table \<and> p (table ! pk) \<and> (\<forall>j < length table. p (table ! j) \<longrightarrow> j = pk)"
  then have "set (find_pks p table) = {pk}"
    by (auto simp: find_pks_set)
  moreover have "distinct (find_pks p table)"
    by (simp add: find_pks_def)
  ultimately show "find_pks p table = [pk]"
    by (rule distinct_set_single [rotated])
qed

lemma find_pks_append:
  "find_pks p (table @ [new]) = find_pks p table @ (if p new then [length table] else [])"
proof -
  have "filter (\<lambda>pk. p ((table @ [new]) ! pk)) [0..<length table] =
        filter (\<lambda>pk. p (table ! pk)) [0..<length table]"
    by (rule filter_cong) (simp_all add: nth_append)
  then show ?thesis
    by (simp add: find_pks_def)
qed

lemma find_pks_update:
  assumes "p new = p (table ! pk)"
  shows "find_pks p (table[pk := new]) = find_pks p table"
proof -
  have "p (table[pk := new] ! j) = p (table ! j)" if "j < length table" for j
    using that assms by (cases "j = pk") simp_all
  then have "filter (\<lambda>j. p (table[pk := new] ! j)) [0..<length table] =
        filter (\<lambda>j. p (table ! j)) [0..<length table]"
    by (intro filter_cong) simp_all
  then show ?thesis
    by (simp add: find_pks_def)
qed

lemma get_or_create_created:
  "find_pks p table = [] \<Longrightarrow> get_or_create p new table = Inr (table @ [new], length table, True)"
  by (simp add: get_or_create_def objects_get_def)

lemma get_or_create_found:
  "find_pks p table = [pk] \<Longrightarrow> get_or_create p new table = Inr (table, pk, False)"
  by (simp add: get_or_create_def objects_get_def)

lemma get_or_create_many:
  "find_pks p table = pk # pk' # pks \<Longrightarrow>
   get_or_create p new table = Inl (MultipleObjectsReturned ''Location'' (Suc (Suc (length pks))))"
  by (simp add: get_or_create_def objects_get_def)

lemma get_or_create_Inr:
  "get_or_create p new table = Inr (table', pk, created) \<longleftrightarrow>
     (created \<and> find_pks p table = [] \<and> table' = table @ [new] \<and> pk = length table) \<or>
     (\<not> created \<and> find_pks p table = [pk] \<and> table' = table)"
  by (auto simp: get_or_create_def objects_get_def split: list.splits)

subsection \<open>The end-to-end scenario\<close>

lemma str_nat_2: "str_nat (Suc (Suc 0)) = ''2''"
  by code_simp

text \<open>
  Claim C9. From any store that has the reference data (the types State, City,
  Data Center and Branch and the status Active, each found once) and no location, the run
  on the two rows (HQ-DC, Austin, TX) and (BR1-BR, Austin, TX) ends with exactly four
  locations: the State Texas, the City Austin under Texas, HQ-DC of type Data Center under
  Austin and BR1-BR of type Branch under Austin. Texas and Austin are created once, by the
  first row, as the log shows, and the run returns
  \<open>''Successfully processed 2 locations''\<close>.
\<close>

theorem run_end_to_end:
  assumes "get_refs st = Inr rf"
    and "objects_get ''LocationType'' (\<lambda>n. n = ''Data Center'') (location_types st) = Inr dc"
    and "objects_get ''LocationType'' (\<lambda>n. n = ''Branch'') (location_types st) = Inr br"
    and "locations st = []"
  shows "run hq_rows st =
    (st\<lparr>locations :=
          [\<lparr>loc_name = ''Texas'', location_type = state_type rf,
            status = active_status rf, parent = None\<rparr>,
           \<lparr>loc_name = ''Austin'', location_type = city_type rf,
            status = active_status rf, parent = Some 0\<rparr>,
           \<lparr>loc_name = ''HQ-DC'', location_type = dc,
            status = active_status rf, parent = Some 1\<rparr>,
           \<lparr>loc_name = ''BR1-BR'', location_type = br,
            status = active_status rf, parent = Some 1\<rparr>],
        logger := logger st @
          [(INFO, ''Created state location: Texas''),
           (INFO, ''Created city location: Austin in Texas''),
           (INFO, ''Created location: HQ-DC in Austin, Texas''),
           (INFO, ''Created location: BR1-BR in Austin, Texas'')]\<rparr>,
     Inr ''Successfully processed 2 locations'')"
proof -
  have tx: "normalize_state ''TX'' = ''Texas''"
    by (simp add: normalize_state_def STATE_MAPPING_def)
  have sfx: "endswith ''HQ-DC'' ''-DC''" "\<not> endswith ''BR1-BR'' ''-DC''"
    "endswith ''BR1-BR'' ''-BR''"
    by (simp_all add: endswith_def)
  show ?thesis
    using assms
    by (simp add: run_def run_collect_def hq_rows_def process_row_def row_body_def row_item_def
        csv_row_def tx resolve_state_def resolve_city_def resolve_site_def get_or_create_def
        objects_get_def [of "''Location''"] find_pks_def get_location_type_def sfx log_info_def
        summary_def str_nat_2)
qed

theorem run_end_to_end_witness:
  "run hq_rows reference_store =
    (\<lparr>location_types = [''State'', ''City'', ''Data Center'', ''Branch''],
      statuses = [''Active''],
      locations =
        [\<lparr>loc_name = ''Texas'', location_type = 0, status = 0, parent = None\<rparr>,
         \<lparr>loc_name = ''Austin'', location_type = 1, status = 0, parent = Some 0\<rparr>,
         \<lparr>loc_name = ''HQ-DC'', location_type = 2, status = 0, parent = Some 1\<rparr>,
         \<lparr>loc_name = ''BR1-BR'', location_type = 3, status = 0, parent = Some 1\<rparr>],
      logger =
        [(INFO, ''Created state location: Texas''),
         (INFO, ''Created city location: Austin in Texas''),
         (INFO, ''Created location: HQ-DC in Austin, Texas''),
         (INFO, ''Created location: BR1-BR in Austin, Texas'')]\<rparr>,
     Inr ''Successfully processed 2 locations'')"
proof -
  have "get_refs reference_store = Inr \<lparr>state_type = 0, city_type = 1, active_status = 0\<rparr>"
    by (simp add: reference_store_def get_refs_def objects_get_def find_pks_def)
  moreover have "objects_get ''LocationType'' (\<lambda>n. n = ''Data Center'')
      (location_types reference_store) = Inr 2"
    by (simp add: reference_store_def objects_get_def find_pks_def)
  moreover have "objects_get ''LocationType'' (\<lambda>n. n = ''Branch'')
      (location_types reference_store) = Inr 3"
    by (simp add: reference_store_def objects_get_def find_pks_def)
  moreover have "locations reference_store = []"
    by (simp add: reference_store_def)
  ultimately show ?thesis
    using run_end_to_end [of reference_store _ 2 3] by (simp add: reference_store_def)
qed

subsection \<open>The three steps of a row, case by case\<close>

lemma get_or_create_Inl:
  "get_or_create p new table = Inl e \<Longrightarrow>
   e = MultipleObjectsReturned ''Location'' (length (find_pks p table)) \<and>
   2 \<le> length (find_pks p table)"
  by (auto simp: get_or_create_def objects_get_def split: list.splits)

lemma resolve_state_created:
  assumes "find_pks (\<lambda>l. loc_name l = n \<and> location_type l = state_type rf) (locations st) = []"
  shows "resolve_state rf n st =
    (st\<lparr>locations := locations st @
           [\<lparr>loc_name = n, location_type = state_type rf,
             status = active_status rf, parent = None\<rparr>],
         logger := logger st @ [(INFO, ''Created state location: '' @ n)]\<rparr>,
     Inr (length (locations st)))"
  using assms by (simp add: resolve_state_def get_or_create_created log_info_def)

lemma resolve_state_found:
  assumes "find_pks (\<lambda>l. loc_name l = n \<and> location_type l = state_type rf) (locations st) = [pk]"
  shows "resolve_state rf n st = (st, Inr pk)"
  using assms by (simp add: resolve_state_def get_or_create_found)

lemma resolve_state_Inl: "resolve_state rf n st = (st', Inl e) \<Longrightarrow> st' = st"
  by (auto simp: resolve_state_def split: sum.splits)

lemma resolve_state_Inr:
  assumes "resolve_state rf n st = (st', Inr pk)"
  shows "(find_pks (\<lambda>l. loc_name l = n \<and> location_type l = state_type rf) (locations st) = [] \<and>
          pk = length (locations st) \<and>
          st' = st\<lparr>locations := locations st @
                  [\<lparr>loc_name = n, location_type = state_type rf,
                    status = active_status rf, parent = None\<rparr>],
                logger := logger st @ [(INFO, ''Created state location: '' @ n)]\<rparr>) \<or>
         (find_pks (\<lambda>l. loc_name l = n \<and> location_type l = state_type rf) (locations st) = [pk] \<and>
          st' = st)"
  using assms
  by (auto simp: resolve_state_def get_or_create_Inr log_info_def split: sum.splits if_splits)

lemma resolve_city_created:
  assumes "find_pks (\<lambda>l. loc_name l = city \<and> location_type l = city_type rf \<and> parent l = Some s)
             (locations st) = []"
  shows "resolve_city rf city fs s st =
    (st\<lparr>locations := locations st @
           [\<lparr>loc_name = city, location_type = city_type rf,
             status = active_status rf, parent = Some s\<rparr>],
         logger := logger st @ [(INFO, ''Created city location: '' @ city @ '' in '' @ fs)]\<rparr>,
     Inr (length (locations st)))"
  using assms by (simp add: resolve_city_def get_or_create_created log_info_def)

lemma resolve_city_found:
  assumes "find_pks (\<lambda>l. loc_name l = city \<and> location_type l = city_type rf \<and> parent l = Some s)
             (locations st) = [pk]"
  shows "resolve_city rf city fs s st = (st, Inr pk)"
  using assms by (simp add: resolve_city_def get_or_create_found)

lemma resolve_city_Inl: "resolve_city rf city fs s st = (st', Inl e) \<Longrightarrow> st' = st"
  by (auto simp: resolve_city_def split: sum.splits)

lemma resolve_city_Inr:
  assumes "resolve_city rf city fs s st = (st', Inr pk)"
  shows "(find_pks (\<lambda>l. loc_name l = city \<and> location_type l = city_type rf \<and> parent l = Some s)
            (locations st) = [] \<and>
          pk = length (locations st) \<and>
          st' = st\<lparr>locations := locations st @
                  [\<lparr>loc_name = city, location_type = city_type rf,
                    status = active_status rf, parent = Some s\<rparr>],
                logger := logger st @
                  [(INFO, ''Created city location: '' @ city @ '' in '' @ fs)]\<rparr>) \<or>
         (find_pks (\<lambda>l. loc_name l = city \<and> location_type l = city_type rf \<and> parent l = Some s)
            (locations st) = [pk] \<and>
          st' = st)"
  using assms
  by (auto simp: resolve_city_def get_or_create_Inr log_info_def split: sum.splits if_splits)

lemma overwrite_location:
  "loc_name l = name \<Longrightarrow>
   l\<lparr>location_type := t, status := a, parent := p\<rparr> =
     \<lparr>loc_name = name, location_type = t, status = a, parent = p\<rparr>"
  by (cases l) simp

lemma resolve_site_created:
  assumes "find_pks (\<lambda>l. loc_name l = name) (locations st) = []"
  shows "resolve_site rf t c name city fs st =
    (st\<lparr>locations := locations st @
           [\<lparr>loc_name = name, location_type = t, status = active_status rf, parent = Some c\<rparr>],
         logger := logger st @
           [(INFO, ''Created location: '' @ name @ '' in '' @ city @ '', '' @ fs)]\<rparr>,
     Inr (length (locations st)))"
  using assms by (simp add: resolve_site_def get_or_create_created log_info_def)

lemma resolve_site_found:
  assumes "find_pks (\<lambda>l. loc_name l = name) (locations st) = [pk]"
  shows "resolve_site rf t c name city fs st =
    (st\<lparr>locations := (locations st)
           [pk := \<lparr>loc_name = name, location_type = t, status = active_status rf, parent = Some c\<rparr>],
         logger := logger st @
           [(INFO, ''Updated location: '' @ name @ '' in '' @ city @ '', '' @ fs)]\<rparr>,
     Inr pk)"
proof -
  from assms have "pk < length (locations st)" "loc_name (locations st ! pk) = name"
    by (auto dest: find_pks_single)
  with assms show ?thesis
    by (simp add: resolve_site_def get_or_create_found log_info_def overwrite_location)
qed

lemma resolve_site_Inl: "resolve_site rf t c name city fs st = (st', Inl e) \<Longrightarrow> st' = st"
  by (auto simp: resolve_site_def Let_def split: sum.splits)

lemma resolve_site_Inr:
  assumes "resolve_site rf t c name city fs st = (st', Inr pk)"
  shows "(find_pks (\<lambda>l. loc_name l = name) (locations st) = [] \<and>
          pk = length (locations st) \<and>
          st' = st\<lparr>locations := locations st @
                  [\<lparr>loc_name = name, location_type = t, status = active_status rf,
                    parent = Some c\<rparr>],
                logger := logger st @
                  [(INFO, ''Created location: '' @ name @ '' in '' @ city @ '', '' @ fs)]\<rparr>) \<or>
         (find_pks (\<lambda>l. loc_name l = name) (locations st) = [pk] \<and>
          st' = st\<lparr>locations := (locations st)
                  [pk := \<lparr>loc_name = name, location_type = t, status = active_status rf,
                          parent = Some c\<rparr>],
                logger := logger st @
                  [(INFO, ''Updated location: '' @ name @ '' in '' @ city @ '', '' @ fs)]\<rparr>)"
proof (cases "find_pks (\<lambda>l. loc_name l = name) (locations st)")
  case Nil
  with assms show ?thesis by (simp add: resolve_site_created)
next
  case (Cons a as)
  show ?thesis
  proof (cases as)
    case Nil
    with Cons assms show ?thesis by (auto simp: resolve_site_found)
  next
    case (Cons b bs)
    with \<open>find_pks (\<lambda>l. loc_name l = name) (locations st) = a # as\<close> assms show ?thesis
      by (simp add: resolve_site_def get_or_create_many)
  qed
qed

subsection \<open>Every step only grows the store\<close>

lemma grows_refl: "grows st st"
  by (simp add: grows_def)

lemma grows_trans: "grows a b \<Longrightarrow> grows b c \<Longrightarrow> grows a c"
  by (auto simp: grows_def intro: prefix_order.trans)

lemma grows_nth:
  assumes "grows st st'" and "pk < length (locations st)"
  shows "pk < length (locations st') \<and> loc_name (locations st' ! pk) = loc_name (locations st ! pk)"
proof -
  from assms(1) obtain zs where zs: "map loc_name (locations st') = map loc_name (locations st) @ zs"
    by (auto simp: grows_def prefix_def)
  then have "length (locations st') = length (locations st) + length zs"
    by (metis length_append length_map)
  with assms(2) have lt: "pk < length (locations st')" by simp
  from zs assms(2) have "map loc_name (locations st') ! pk = map loc_name (locations st) ! pk"
    by (simp add: nth_append)
  with lt assms(2) show ?thesis by simp
qed

lemma map_loc_name_update:
  "pk < length table \<Longrightarrow> loc_name new = loc_name (table ! pk) \<Longrightarrow>
   map loc_name (table[pk := new]) = map loc_name table"
  by (simp add: map_update list_update_same_conv)

lemma resolve_state_grows: "resolve_state rf n st = (st', res) \<Longrightarrow> grows st st'"
  by (cases res) (auto simp: grows_def dest: resolve_state_Inl dest!: resolve_state_Inr)

lemma resolve_city_grows: "resolve_city rf city fs s st = (st', res) \<Longrightarrow> grows st st'"
  by (cases res) (auto simp: grows_def dest: resolve_city_Inl dest!: resolve_city_Inr)

lemma resolve_site_grows: "resolve_site rf t c name city fs st = (st', res) \<Longrightarrow> grows st st'"
  by (cases res)
    (auto simp: grows_def map_loc_name_update dest: resolve_site_Inl find_pks_single
      dest!: resolve_site_Inr)

lemma row_body_Inr:
  assumes "row_body rf r st = (st', Inr pk)"
  shows "\<exists>state city name s c t st1 st2.
           r ''state'' = Some state \<and> r ''city'' = Some city \<and> r ''name'' = Some name \<and>
           resolve_state rf (normalize_state state) st = (st1, Inr s) \<and>
           resolve_city rf city (normalize_state state) s st1 = (st2, Inr c) \<and>
           get_location_type name st2 = Inr t \<and>
           resolve_site rf t c name city (normalize_state state) st2 = (st', Inr pk)"
  using assms
  by (auto simp: row_body_def row_item_def split: option.splits sum.splits prod.splits)

lemma row_body_grows: "row_body rf r st = (st', res) \<Longrightarrow> grows st st'"
  unfolding row_body_def row_item_def
  by (auto split: option.splits sum.splits prod.splits intro: grows_refl)
    (meson grows_trans resolve_state_grows resolve_city_grows resolve_site_grows)+

lemma log_error_grows: "grows st (log_error msg st)"
  by (simp add: grows_def log_error_def)

lemma process_row_grows: "process_row rf r st = (st', res) \<Longrightarrow> grows st st'"
  unfolding process_row_def
  by (auto split: sum.splits prod.splits)
    (meson grows_trans row_body_grows log_error_grows)+

lemma process_row_Inr: "process_row rf r st = (st', Inr pk) \<longleftrightarrow> row_body rf r st = (st', Inr pk)"
  by (auto simp: process_row_def split: sum.splits prod.splits)

lemma run_rows_grows: "run_rows rf rows acc st = (st', res) \<Longrightarrow> grows st st'"
proof (induction rows arbitrary: acc st)
  case Nil
  then show ?case by (simp add: grows_refl)
next
  case (Cons r rows)
  obtain st1 res1 where step: "process_row rf r st = (st1, res1)"
    by (cases "process_row rf r st")
  then have g: "grows st st1" by (rule process_row_grows)
  show ?case
  proof (cases res1)
    case (Inl e)
    with Cons.prems step g show ?thesis by simp
  next
    case (Inr pk)
    with Cons.prems step have "run_rows rf rows (acc @ [pk]) st1 = (st', res)" by simp
    then have "grows st1 st'" by (rule Cons.IH)
    with g show ?thesis by (rule grows_trans)
  qed
qed

lemma run_rows_append:
  "run_rows rf (xs @ ys) acc st =
     (case run_rows rf xs acc st of
        (st1, Inl e) \<Rightarrow> (st1, Inl e)
      | (st1, Inr acc1) \<Rightarrow> run_rows rf ys acc1 st1)"
  by (induction xs arbitrary: acc st) (auto split: prod.splits sum.splits)

subsection \<open>The result collection and the summary\<close>

lemma run_rows_Inr:
  assumes "run_rows rf rows acc st = (st', Inr acc')"
  shows "\<exists>pks. acc' = acc @ pks \<and> length pks = length rows \<and>
           map (\<lambda>pk. Some (loc_name (locations st' ! pk))) pks = map (\<lambda>r. r ''name'') rows"
  using assms
proof (induction rows arbitrary: acc st)
  case Nil
  then show ?case by simp
next
  case (Cons r rows)
  from Cons.prems obtain st1 pk where step: "process_row rf r st = (st1, Inr pk)"
    and rest: "run_rows rf rows (acc @ [pk]) st1 = (st', Inr acc')"
    by (auto split: prod.splits sum.splits)
  from step have "row_body rf r st = (st1, Inr pk)"
    by (simp add: process_row_Inr)
  then obtain t c name city fs st2 where name: "r ''name'' = Some name"
    and site: "resolve_site rf t c name city fs st2 = (st1, Inr pk)"
    by (blast dest: row_body_Inr)
  from site have pk: "pk < length (locations st1)" "loc_name (locations st1 ! pk) = name"
    by (auto dest!: resolve_site_Inr dest: find_pks_single simp: nth_append)
  from rest have "grows st1 st'" by (rule run_rows_grows)
  with pk have "loc_name (locations st' ! pk) = name"
    by (simp add: grows_nth)
  moreover from Cons.IH [OF rest] obtain pks where "acc' = (acc @ [pk]) @ pks"
    "length pks = length rows"
    "map (\<lambda>pk. Some (loc_name (locations st' ! pk))) pks = map (\<lambda>r. r ''name'') rows"
    by blast
  ultimately have "acc' = acc @ (pk # pks) \<and> length (pk # pks) = length (r # rows) \<and>
      map (\<lambda>pk. Some (loc_name (locations st' ! pk))) (pk # pks) =
        map (\<lambda>r. r ''name'') (r # rows)"
    using name by simp
  then show ?case by blast
qed

text \<open>
  Claim C8. When the run returns its message, that is when every row succeeded, the
  message is \<open>''Successfully processed N locations''\<close> with \<open>N\<close> the number of rows.
  The result collection has one entry per row, in the order of the rows: the entry of a
  row is a location with that row's name. A name that two rows share is counted twice.
\<close>

theorem run_summary_counts_rows:
  assumes "run rows st = (st', Inr msg)"
  shows "msg = ''Successfully processed '' @ str_nat (length rows) @ '' locations'' \<and>
         (\<exists>created_or_updated.
            run_collect rows st = (st', Inr created_or_updated) \<and>
            length created_or_updated = length rows \<and>
            map (\<lambda>pk. Some (loc_name (locations st' ! pk))) created_or_updated =
              map (\<lambda>r. r ''name'') rows)"
proof -
  from assms obtain cu where cu: "run_collect rows st = (st', Inr cu)" and msg: "msg = summary cu"
    by (auto simp: run_def split: prod.splits sum.splits)
  from cu obtain rf where "run_rows rf rows [] st = (st', Inr cu)"
    by (auto simp: run_collect_def split: sum.splits)
  from run_rows_Inr [OF this] have "length cu = length rows"
    "map (\<lambda>pk. Some (loc_name (locations st' ! pk))) cu = map (\<lambda>r. r ''name'') rows"
    by auto
  with cu msg show ?thesis by (auto simp: summary_def)
qed

theorem run_summary_counts_rows_witness:
  "run [hq_br_austin, hq_br_denver] reference_store =
     (relocated_store, Inr ''Successfully processed 2 locations'') \<and>
   ''Successfully processed 2 locations'' =
     ''Successfully processed '' @ str_nat (length [hq_br_austin, hq_br_denver]) @ '' locations'' \<and>
   run_collect [hq_br_austin, hq_br_denver] reference_store = (relocated_store, Inr [2, 2])"
proof -
  have ev: "run [hq_br_austin, hq_br_denver] reference_store =
      (relocated_store, Inr ''Successfully processed 2 locations'')"
    by code_simp
  have "run_collect [hq_br_austin, hq_br_denver] reference_store = (relocated_store, Inr [2, 2])"
    by code_simp
  with ev run_summary_counts_rows [OF ev] show ?thesis by simp
qed

subsection \<open>Failures\<close>

lemma get_refs_reference_store: "get_refs reference_store = Inr reference_refs"
  by (simp add: reference_store_def reference_refs_def get_refs_def objects_get_def find_pks_def)

text \<open>
  Claim C5. Let the reference records be found, let the rows \<open>earlier\<close> succeed and
  leave the store \<open>st1\<close>, and let the body of the next row \<open>r\<close> raise \<open>e\<close> in the
  store \<open>st2\<close> it has reached. Then the run on \<open>earlier @ r # later\<close> raises \<open>e\<close>,
  whatever the rows \<open>later\<close> are: none of them is processed and no summary is returned.
  The store it leaves is \<open>st2\<close>, with every write of the earlier rows and of the earlier
  steps of \<open>r\<close>, and one more log line, at the error level, that holds the row's name
  (\<^verbatim>\<open>row.get('name', '')\<close>) and the message of \<open>e\<close>. The stores only grow from
  \<open>st\<close> to \<open>st1\<close> to \<open>st2\<close>.
\<close>

theorem abort_on_first_error:
  assumes "get_refs st = Inr rf"
    and "run_rows rf earlier [] st = (st1, Inr sites)"
    and "row_body rf r st1 = (st2, Inl e)"
  shows "run (earlier @ r # later) st =
           (st2\<lparr>logger := logger st2 @
                  [(ERROR, ''Error processing location '' @ row_get r ''name'' [] @ '': '' @
                           exn_str e)]\<rparr>,
            Inl e) \<and>
         grows st st1 \<and> grows st1 st2"
proof -
  from assms(3) have "process_row rf r st1 =
      (st2\<lparr>logger := logger st2 @
              [(ERROR, ''Error processing location '' @ row_get r ''name'' [] @ '': '' @
                       exn_str e)]\<rparr>, Inl e)"
    by (simp add: process_row_def log_error_def)
  with assms(1,2) have "run (earlier @ r # later) st =
      (st2\<lparr>logger := logger st2 @
              [(ERROR, ''Error processing location '' @ row_get r ''name'' [] @ '': '' @
                       exn_str e)]\<rparr>, Inl e)"
    by (simp add: run_def run_collect_def run_rows_append)
  moreover from assms(2) have "grows st st1" by (rule run_rows_grows)
  moreover from assms(3) have "grows st1 st2" by (rule row_body_grows)
  ultimately show ?thesis by simp
qed

theorem abort_on_first_error_witness:
  "run [hq_br_austin, badname_denver, hq_br_denver] reference_store =
     (\<lparr>location_types = [''State'', ''City'', ''Data Center'', ''Branch''],
       statuses = [''Active''],
       locations =
         [\<lparr>loc_name = ''Texas'', location_type = 0, status = 0, parent = None\<rparr>,
          \<lparr>loc_name = ''Austin'', location_type = 1, status = 0, parent = Some 0\<rparr>,
          \<lparr>loc_name = ''HQ-BR'', location_type = 3, status = 0, parent = Some 1\<rparr>,
          \<lparr>loc_name = ''Colorado'', location_type = 0, status = 0, parent = None\<rparr>,
          \<lparr>loc_name = ''Denver'', location_type = 1, status = 0, parent = Some 3\<rparr>],
       logger =
         [(INFO, ''Created state location: Texas''),
          (INFO, ''Created city location: Austin in Texas''),
          (INFO, ''Created location: HQ-BR in Austin, Texas''),
          (INFO, ''Created state location: Colorado''),
          (INFO, ''Created city location: Denver in Colorado''),
          (ERROR, ''Error processing location BADNAME: Location name BADNAME must end with either -DC or -BR'')]\<rparr>,
      Inl (ValueError ''Location name BADNAME must end with either -DC or -BR''))"
proof -
  let ?st1 = "\<lparr>location_types = [''State'', ''City'', ''Data Center'', ''Branch''],
       statuses = [''Active''],
       locations =
         [\<lparr>loc_name = ''Texas'', location_type = 0, status = 0, parent = None\<rparr>,
          \<lparr>loc_name = ''Austin'', location_type = 1, status = 0, parent = Some 0\<rparr>,
          \<lparr>loc_name = ''HQ-BR'', location_type = 3, status = 0, parent = Some 1\<rparr>],
       logger =
         [(INFO, ''Created state location: Texas''),
          (INFO, ''Created city location: Austin in Texas''),
          (INFO, ''Created location: HQ-BR in Austin, Texas'')]\<rparr>"
  let ?st2 = "\<lparr>location_types = [''State'', ''City'', ''Data Center'', ''Branch''],
       statuses = [''Active''],
       locations =
         [\<lparr>loc_name = ''Texas'', location_type = 0, status = 0, parent = None\<rparr>,
          \<lparr>loc_name = ''Austin'', location_type = 1, status = 0, parent = Some 0\<rparr>,
          \<lparr>loc_name = ''HQ-BR'', location_type = 3, status = 0, parent = Some 1\<rparr>,
          \<lparr>loc_name = ''Colorado'', location_type = 0, status = 0, parent = None\<rparr>,
          \<lparr>loc_name = ''Denver'', location_type = 1, status = 0, parent = Some 3\<rparr>],
       logger =
         [(INFO, ''Created state location: Texas''),
          (INFO, ''Created city location: Austin in Texas''),
          (INFO, ''Created location: HQ-BR in Austin, Texas''),
          (INFO, ''Created state location: Colorado''),
          (INFO, ''Created city location: Denver in Colorado'')]\<rparr>"
  have h2: "run_rows reference_refs [hq_br_austin] [] reference_store = (?st1, Inr [2])"
    by code_simp
  have h3: "row_body reference_refs badname_denver ?st1 =
      (?st2, Inl (ValueError ''Location name BADNAME must end with either -DC or -BR''))"
    by code_simp
  have "row_get badname_denver ''name'' [] = ''BADNAME''"
    by code_simp
  then show ?thesis
    using abort_on_first_error [OF get_refs_reference_store h2 h3, of "[hq_br_denver]"]
    by simp
qed

text \<open>
  The only lookup of reference data inside a row is the classifier's: a row's body that
  raises \<^verbatim>\<open>DoesNotExist\<close> has a name, and the classifier raised it.
\<close>

lemma row_body_DoesNotExist:
  assumes "row_body rf r st = (st', Inl (DoesNotExist model))"
  shows "\<exists>name. r ''name'' = Some name \<and> get_location_type name st' = Inl (DoesNotExist model)"
  using assms unfolding row_body_def row_item_def
  by (auto split: option.splits sum.splits prod.splits
      dest!: get_or_create_Inl resolve_site_Inl
      simp: resolve_state_def resolve_city_def resolve_site_def Let_def)

lemma get_location_type_DoesNotExist:
  assumes "get_location_type name st = Inl (DoesNotExist model)"
  shows "model = ''LocationType'' \<and>
         (endswith name ''-DC'' \<and> find_pks (\<lambda>n. n = ''Data Center'') (location_types st) = [] \<or>
          endswith name ''-BR'' \<and> find_pks (\<lambda>n. n = ''Branch'') (location_types st) = [])"
  using assms
  by (auto simp: get_location_type_def objects_get_def split: if_splits list.splits)

text \<open>
  Claim C6, as the code has it. The location types State and City and the status Active
  are resolved before the first row: when one of them fails, the run raises that failure
  with the store and the log as they were, so nothing is logged, with no row's name. A
  \<^verbatim>\<open>DoesNotExist\<close> inside a row is a failure to resolve the location type
  Data Center or Branch, in step 3 of a row whose name has that suffix; it is logged with
  that row's name, and the run raises it.
\<close>

theorem missing_reference_data:
  "(get_refs st = Inl e \<longrightarrow> run rows st = (st, Inl e)) \<and>
   (get_refs st = Inr rf \<and> run_rows rf earlier [] st = (st1, Inr sites) \<and>
    row_body rf r st1 = (st2, Inl (DoesNotExist model)) \<longrightarrow>
      (\<exists>name. r ''name'' = Some name \<and> model = ''LocationType'' \<and>
         (endswith name ''-DC'' \<and>
            find_pks (\<lambda>n. n = ''Data Center'') (location_types st) = [] \<or>
          endswith name ''-BR'' \<and>
            find_pks (\<lambda>n. n = ''Branch'') (location_types st) = []) \<and>
         run (earlier @ r # later) st =
           (st2\<lparr>logger := logger st2 @
                  [(ERROR, ''Error processing location '' @ name @
                           '': LocationType matching query does not exist.'')]\<rparr>,
            Inl (DoesNotExist model))))"
proof (intro conjI impI)
  assume "get_refs st = Inl e"
  then show "run rows st = (st, Inl e)"
    by (simp add: run_def run_collect_def)
next
  assume a: "get_refs st = Inr rf \<and> run_rows rf earlier [] st = (st1, Inr sites) \<and>
    row_body rf r st1 = (st2, Inl (DoesNotExist model))"
  then obtain name where name: "r ''name'' = Some name"
    and ty: "get_location_type name st2 = Inl (DoesNotExist model)"
    by (blast dest: row_body_DoesNotExist)
  from a have "grows st st1" "grows st1 st2"
    by (blast intro: run_rows_grows row_body_grows)+
  then have lt: "location_types st2 = location_types st"
    by (simp add: grows_def)
  from a have "process_row rf r st1 =
      (st2\<lparr>logger := logger st2 @
              [(ERROR, ''Error processing location '' @ row_get r ''name'' [] @ '': '' @
                       exn_str (DoesNotExist model))]\<rparr>, Inl (DoesNotExist model))"
    by (simp add: process_row_def log_error_def)
  with a have "run (earlier @ r # later) st =
      (st2\<lparr>logger := logger st2 @
              [(ERROR, ''Error processing location '' @ row_get r ''name'' [] @ '': '' @
                       exn_str (DoesNotExist model))]\<rparr>, Inl (DoesNotExist model))"
    by (simp add: run_def run_collect_def run_rows_append)
  with name get_location_type_DoesNotExist [OF ty] lt
  show "\<exists>name. r ''name'' = Some name \<and> model = ''LocationType'' \<and>
         (endswith name ''-DC'' \<and>
            find_pks (\<lambda>n. n = ''Data Center'') (location_types st) = [] \<or>
          endswith name ''-BR'' \<and>
            find_pks (\<lambda>n. n = ''Branch'') (location_types st) = []) \<and>
         run (earlier @ r # later) st =
           (st2\<lparr>logger := logger st2 @
                  [(ERROR, ''Error processing location '' @ name @
                           '': LocationType matching query does not exist.'')]\<rparr>,
            Inl (DoesNotExist model))"
    by (auto simp: row_get_def)
qed

theorem missing_reference_data_witness:
  "run hq_rows no_state_type_store =
     (no_state_type_store, Inl (DoesNotExist ''LocationType'')) \<and>
   run [csv_row ''HQ-DC'' ''Austin'' ''TX''] no_dc_type_store =
     (\<lparr>location_types = [''State'', ''City'', ''Branch''],
       statuses = [''Active''],
       locations =
         [\<lparr>loc_name = ''Texas'', location_type = 0, status = 0, parent = None\<rparr>,
          \<lparr>loc_name = ''Austin'', location_type = 1, status = 0, parent = Some 0\<rparr>],
       logger =
         [(INFO, ''Created state location: Texas''),
          (INFO, ''Created city location: Austin in Texas''),
          (ERROR, ''Error processing location HQ-DC: LocationType matching query does not exist.'')]\<rparr>,
      Inl (DoesNotExist ''LocationType''))"
proof -
  let ?r = "csv_row ''HQ-DC'' ''Austin'' ''TX''"
  let ?st2 = "\<lparr>location_types = [''State'', ''City'', ''Branch''],
       statuses = [''Active''],
       locations =
         [\<lparr>loc_name = ''Texas'', location_type = 0, status = 0, parent = None\<rparr>,
          \<lparr>loc_name = ''Austin'', location_type = 1, status = 0, parent = Some 0\<rparr>],
       logger =
         [(INFO, ''Created state location: Texas''),
          (INFO, ''Created city location: Austin in Texas'')]\<rparr>"
  have "get_refs no_state_type_store = Inl (DoesNotExist ''LocationType'')"
    by code_simp
  with missing_reference_data [where st = no_state_type_store and rows = hq_rows
      and e = "DoesNotExist ''LocationType''"]
  have one: "run hq_rows no_state_type_store =
      (no_state_type_store, Inl (DoesNotExist ''LocationType''))"
    by blast
  have "get_refs no_dc_type_store = Inr reference_refs"
    by code_simp
  moreover have "run_rows reference_refs [] [] no_dc_type_store = (no_dc_type_store, Inr [])"
    by simp
  moreover have "row_body reference_refs ?r no_dc_type_store =
      (?st2, Inl (DoesNotExist ''LocationType''))"
    by code_simp
  ultimately obtain name where "?r ''name'' = Some name"
    and run: "run ([] @ ?r # []) no_dc_type_store =
      (?st2\<lparr>logger := logger ?st2 @
          [(ERROR, ''Error processing location '' @ name @
                   '': LocationType matching query does not exist.'')]\<rparr>,
       Inl (DoesNotExist ''LocationType''))"
    using missing_reference_data [where st = no_dc_type_store and rf = reference_refs
        and earlier = "[]" and ?st1.0 = no_dc_type_store and sites = "[]" and r = ?r
        and ?st2.0 = ?st2 and model = "''LocationType''" and later = "[]"]
    by blast
  then have "name = ''HQ-DC''"
    by (simp add: csv_row_def)
  with run one show ?thesis by simp
qed

text \<open>
  The claim as it is written fails for the location type State: the run on a store
  without it raises before any row, and the log stays empty.
\<close>

theorem missing_state_type_not_logged:
  "run [hq_br_austin] no_state_type_store =
     (no_state_type_store, Inl (DoesNotExist ''LocationType'')) \<and>
   logger (fst (run [hq_br_austin] no_state_type_store)) = []"
  by code_simp

text \<open>
  Claim C10. Take a row with its three fields whose name ends neither in \<open>''-DC''\<close> nor
  in \<open>''-BR''\<close>, and let its steps 1 and 2 succeed, from \<open>st\<close> over \<open>st1\<close> to
  \<open>st2\<close>. The classification raises only then: the run stops at this row with the
  \<^verbatim>\<open>ValueError\<close>, logged with the row's name, and no later row runs. The store it
  leaves has the locations of \<open>st\<close>, then the State location if step 1 found none, then
  the City location if step 2 found none, and nothing else: no site is written. The log
  has the creation lines of those two records.
\<close>

theorem unclassified_row_keeps_state_and_city:
  assumes "r ''state'' = Some state" and "r ''city'' = Some city" and "r ''name'' = Some name"
    and "\<not> endswith name ''-DC''" and "\<not> endswith name ''-BR''"
    and "resolve_state rf (normalize_state state) st = (st1, Inr s)"
    and "resolve_city rf city (normalize_state state) s st1 = (st2, Inr c)"
  shows "run_rows rf (r # later) acc st =
           (st2\<lparr>logger := logger st2 @
                  [(ERROR, ''Error processing location '' @ name @ '': Location name '' @ name @
                           '' must end with either -DC or -BR'')]\<rparr>,
            Inl (ValueError (''Location name '' @ name @ '' must end with either -DC or -BR''))) \<and>
         locations st2 =
           locations st @
           (if find_pks (\<lambda>l. loc_name l = normalize_state state \<and> location_type l = state_type rf)
                 (locations st) = []
            then [\<lparr>loc_name = normalize_state state, location_type = state_type rf,
                   status = active_status rf, parent = None\<rparr>]
            else []) @
           (if find_pks (\<lambda>l. loc_name l = city \<and> location_type l = city_type rf \<and>
                             parent l = Some s) (locations st1) = []
            then [\<lparr>loc_name = city, location_type = city_type rf,
                   status = active_status rf, parent = Some s\<rparr>]
            else []) \<and>
         logger st2 =
           logger st @
           (if find_pks (\<lambda>l. loc_name l = normalize_state state \<and> location_type l = state_type rf)
                 (locations st) = []
            then [(INFO, ''Created state location: '' @ normalize_state state)]
            else []) @
           (if find_pks (\<lambda>l. loc_name l = city \<and> location_type l = city_type rf \<and>
                             parent l = Some s) (locations st1) = []
            then [(INFO, ''Created city location: '' @ city @ '' in '' @ normalize_state state)]
            else [])"
proof -
  from assms(4,5) have "get_location_type name st2 =
      Inl (ValueError (''Location name '' @ name @ '' must end with either -DC or -BR''))"
    by (simp add: get_location_type_def)
  with assms(1,2,3,6,7) have "row_body rf r st =
      (st2, Inl (ValueError (''Location name '' @ name @ '' must end with either -DC or -BR'')))"
    by (simp add: row_body_def row_item_def)
  with assms(3) have "run_rows rf (r # later) acc st =
           (st2\<lparr>logger := logger st2 @
                  [(ERROR, ''Error processing location '' @ name @ '': Location name '' @ name @
                           '' must end with either -DC or -BR'')]\<rparr>,
            Inl (ValueError (''Location name '' @ name @ '' must end with either -DC or -BR'')))"
    by (simp add: process_row_def log_error_def row_get_def)
  moreover from resolve_state_Inr [OF assms(6)] resolve_city_Inr [OF assms(7)]
  have "locations st2 =
           locations st @
           (if find_pks (\<lambda>l. loc_name l = normalize_state state \<and> location_type l = state_type rf)
                 (locations st) = []
            then [\<lparr>loc_name = normalize_state state, location_type = state_type rf,
                   status = active_status rf, parent = None\<rparr>]
            else []) @
           (if find_pks (\<lambda>l. loc_name l = city \<and> location_type l = city_type rf \<and>
                             parent l = Some s) (locations st1) = []
            then [\<lparr>loc_name = city, location_type = city_type rf,
                   status = active_status rf, parent = Some s\<rparr>]
            else [])"
    by auto
  moreover from resolve_state_Inr [OF assms(6)] resolve_city_Inr [OF assms(7)]
  have "logger st2 =
           logger st @
           (if find_pks (\<lambda>l. loc_name l = normalize_state state \<and> location_type l = state_type rf)
                 (locations st) = []
            then [(INFO, ''Created state location: '' @ normalize_state state)]
            else []) @
           (if find_pks (\<lambda>l. loc_name l = city \<and> location_type l = city_type rf \<and>
                             parent l = Some s) (locations st1) = []
            then [(INFO, ''Created city location: '' @ city @ '' in '' @ normalize_state state)]
            else [])"
    by auto
  ultimately show ?thesis by blast
qed

theorem unclassified_row_keeps_state_and_city_witness:
  "run_rows reference_refs [badname_denver, hq_br_denver] [] reference_store =
     (\<lparr>location_types = [''State'', ''City'', ''Data Center'', ''Branch''],
       statuses = [''Active''],
       locations =
         [\<lparr>loc_name = ''Colorado'', location_type = 0, status = 0, parent = None\<rparr>,
          \<lparr>loc_name = ''Denver'', location_type = 1, status = 0, parent = Some 0\<rparr>],
       logger =
         [(INFO, ''Created state location: Colorado''),
          (INFO, ''Created city location: Denver in Colorado''),
          (ERROR, ''Error processing location BADNAME: Location name BADNAME must end with either -DC or -BR'')]\<rparr>,
      Inl (ValueError ''Location name BADNAME must end with either -DC or -BR''))"
proof -
  let ?st1 = "\<lparr>location_types = [''State'', ''City'', ''Data Center'', ''Branch''],
       statuses = [''Active''],
       locations =
         [\<lparr>loc_name = ''Colorado'', location_type = 0, status = 0, parent = None\<rparr>],
       logger = [(INFO, ''Created state location: Colorado'')]\<rparr>"
  let ?st2 = "\<lparr>location_types = [''State'', ''City'', ''Data Center'', ''Branch''],
       statuses = [''Active''],
       locations =
         [\<lparr>loc_name = ''Colorado'', location_type = 0, status = 0, parent = None\<rparr>,
          \<lparr>loc_name = ''Denver'', location_type = 1, status = 0, parent = Some 0\<rparr>],
       logger =
         [(INFO, ''Created state location: Colorado''),
          (INFO, ''Created city location: Denver in Colorado'')]\<rparr>"
  have co: "normalize_state ''CO'' = ''Colorado''"
    by code_simp
  have r: "badname_denver ''state'' = Some ''CO''" "badname_denver ''city'' = Some ''Denver''"
    "badname_denver ''name'' = Some ''BADNAME''"
    by (simp_all add: badname_denver_def csv_row_def)
  have sfx: "\<not> endswith ''BADNAME'' ''-DC''" "\<not> endswith ''BADNAME'' ''-BR''"
    by (simp_all add: endswith_def)
  have s1: "resolve_state reference_refs (normalize_state ''CO'') reference_store = (?st1, Inr 0)"
    by code_simp
  have s2: "resolve_city reference_refs ''Denver'' (normalize_state ''CO'') 0 ?st1 = (?st2, Inr 1)"
    by code_simp
  show ?thesis
    using unclassified_row_keeps_state_and_city [OF r sfx s1 s2, of "[hq_br_denver]" "[]"]
    by simp
qed

subsection \<open>State and City: get or create\<close>

lemma resolve_state_prefix: "resolve_state rf n st = (st', res) \<Longrightarrow> prefix (locations st) (locations st')"
  by (cases res) (auto dest: resolve_state_Inl dest!: resolve_state_Inr)

lemma resolve_city_prefix:
  "resolve_city rf city fs s st = (st', res) \<Longrightarrow> prefix (locations st) (locations st')"
  by (cases res) (auto dest: resolve_city_Inl dest!: resolve_city_Inr)

text \<open>
  Claim C7. Step 1 looks the State location up by the normalized state name and the type
  State, step 2 looks the City location up by the row's city as it is written, the type
  City and the State location of step 1 as parent. When the lookup finds no record, the
  step appends the record with the status Active (and no parent for a State) and logs its
  creation. When the lookup finds one record, the step returns its key and the store is
  the same store: no field of any record is written and nothing is logged. In every case
  the locations that were there are still there, unchanged. So for a row whose State and
  City are found, the body of the row is its step 3 alone.
\<close>

theorem state_and_city_get_or_create:
  "(find_pks (\<lambda>l. loc_name l = normalize_state state \<and> location_type l = state_type rf)
      (locations st) = [] \<longrightarrow>
    resolve_state rf (normalize_state state) st =
      (st\<lparr>locations := locations st @
             [\<lparr>loc_name = normalize_state state, location_type = state_type rf,
               status = active_status rf, parent = None\<rparr>],
           logger := logger st @
             [(INFO, ''Created state location: '' @ normalize_state state)]\<rparr>,
       Inr (length (locations st)))) \<and>
   (find_pks (\<lambda>l. loc_name l = normalize_state state \<and> location_type l = state_type rf)
      (locations st) = [s] \<longrightarrow>
    resolve_state rf (normalize_state state) st = (st, Inr s)) \<and>
   (find_pks (\<lambda>l. loc_name l = city \<and> location_type l = city_type rf \<and> parent l = Some s)
      (locations st) = [] \<longrightarrow>
    resolve_city rf city (normalize_state state) s st =
      (st\<lparr>locations := locations st @
             [\<lparr>loc_name = city, location_type = city_type rf,
               status = active_status rf, parent = Some s\<rparr>],
           logger := logger st @
             [(INFO, ''Created city location: '' @ city @ '' in '' @ normalize_state state)]\<rparr>,
       Inr (length (locations st)))) \<and>
   (find_pks (\<lambda>l. loc_name l = city \<and> location_type l = city_type rf \<and> parent l = Some s)
      (locations st) = [c] \<longrightarrow>
    resolve_city rf city (normalize_state state) s st = (st, Inr c)) \<and>
   prefix (locations st) (locations (fst (resolve_state rf (normalize_state state) st))) \<and>
   prefix (locations st) (locations (fst (resolve_city rf city (normalize_state state) s st))) \<and>
   (r ''state'' = Some state \<and> r ''city'' = Some city \<and> r ''name'' = Some name \<and>
    find_pks (\<lambda>l. loc_name l = normalize_state state \<and> location_type l = state_type rf)
      (locations st) = [s] \<and>
    find_pks (\<lambda>l. loc_name l = city \<and> location_type l = city_type rf \<and> parent l = Some s)
      (locations st) = [c] \<and>
    get_location_type name st = Inr t \<longrightarrow>
    row_body rf r st = resolve_site rf t c name city (normalize_state state) st)"
proof -
  have "prefix (locations st) (locations (fst (resolve_state rf (normalize_state state) st)))"
    by (metis resolve_state_prefix prod.collapse)
  moreover have
    "prefix (locations st) (locations (fst (resolve_city rf city (normalize_state state) s st)))"
    by (metis resolve_city_prefix prod.collapse)
  moreover have "row_body rf r st = resolve_site rf t c name city (normalize_state state) st"
    if "r ''state'' = Some state \<and> r ''city'' = Some city \<and> r ''name'' = Some name \<and>
        find_pks (\<lambda>l. loc_name l = normalize_state state \<and> location_type l = state_type rf)
          (locations st) = [s] \<and>
        find_pks (\<lambda>l. loc_name l = city \<and> location_type l = city_type rf \<and> parent l = Some s)
          (locations st) = [c] \<and>
        get_location_type name st = Inr t"
    using that by (simp add: row_body_def row_item_def resolve_state_found resolve_city_found)
  ultimately show ?thesis
    by (simp add: resolve_state_created resolve_state_found resolve_city_created
        resolve_city_found)
qed

theorem state_and_city_get_or_create_witness:
  "resolve_state reference_refs (normalize_state ''TX'') reference_store =
     (reference_store
        \<lparr>locations := [\<lparr>loc_name = ''Texas'', location_type = 0, status = 0, parent = None\<rparr>],
         logger := [(INFO, ''Created state location: Texas'')]\<rparr>,
      Inr 0) \<and>
   resolve_state reference_refs (normalize_state ''TX'') texas_store = (texas_store, Inr 0) \<and>
   resolve_city reference_refs ''Austin'' (normalize_state ''TX'') 0 texas_store =
     (texas_store, Inr 1) \<and>
   resolve_city reference_refs ''Dallas'' (normalize_state ''TX'') 0 texas_store =
     (texas_store
        \<lparr>locations := locations texas_store @
           [\<lparr>loc_name = ''Dallas'', location_type = 1, status = 0, parent = Some 0\<rparr>],
         logger := [(INFO, ''Created city location: Dallas in Texas'')]\<rparr>,
      Inr 2) \<and>
   row_body reference_refs hq_br_austin texas_store =
     resolve_site reference_refs 3 1 ''HQ-BR'' ''Austin'' ''Texas'' texas_store"
proof -
  have tx: "normalize_state ''TX'' = ''Texas''"
    by code_simp
  have a: "find_pks (\<lambda>l. loc_name l = normalize_state ''TX'' \<and>
              location_type l = state_type reference_refs) (locations reference_store) = []"
    by (simp add: reference_store_def find_pks_def)
  have b: "find_pks (\<lambda>l. loc_name l = normalize_state ''TX'' \<and>
              location_type l = state_type reference_refs) (locations texas_store) = [0]"
    by (simp add: texas_store_def reference_refs_def find_pks_def tx)
  have c: "find_pks (\<lambda>l. loc_name l = ''Austin'' \<and> location_type l = city_type reference_refs \<and>
              parent l = Some 0) (locations texas_store) = [1]"
    by (simp add: texas_store_def reference_refs_def find_pks_def)
  have d: "find_pks (\<lambda>l. loc_name l = ''Dallas'' \<and> location_type l = city_type reference_refs \<and>
              parent l = Some 0) (locations texas_store) = []"
    by (simp add: texas_store_def reference_refs_def find_pks_def)
  have r: "hq_br_austin ''state'' = Some ''TX''" "hq_br_austin ''city'' = Some ''Austin''"
    "hq_br_austin ''name'' = Some ''HQ-BR''"
    by (simp_all add: hq_br_austin_def csv_row_def)
  have t: "get_location_type ''HQ-BR'' texas_store = Inr 3"
    by code_simp
  from a b c d r t show ?thesis
    using state_and_city_get_or_create [of "''TX''" reference_refs reference_store]
      state_and_city_get_or_create [of "''TX''" reference_refs texas_store 0 "''Austin''" 1
        hq_br_austin "''HQ-BR''" 3]
      state_and_city_get_or_create [of "''TX''" reference_refs texas_store 0 "''Dallas''"]
    by (simp add: tx reference_refs_def texas_store_def reference_store_def)
qed

subsection \<open>The site: create or overwrite, by name\<close>

lemma resolve_site_one_record:
  assumes "resolve_site rf t c name city fs st = (st', Inr site)"
  shows "find_pks (\<lambda>l. loc_name l = name) (locations st') = [site] \<and>
         locations st' ! site =
           \<lparr>loc_name = name, location_type = t, status = active_status rf, parent = Some c\<rparr>"
proof -
  from resolve_site_Inr [OF assms] show ?thesis
  proof (elim disjE conjE)
    assume "find_pks (\<lambda>l. loc_name l = name) (locations st) = []"
      and "site = length (locations st)"
      and "st' = st\<lparr>locations := locations st @
                  [\<lparr>loc_name = name, location_type = t, status = active_status rf,
                    parent = Some c\<rparr>],
                logger := logger st @
                  [(INFO, ''Created location: '' @ name @ '' in '' @ city @ '', '' @ fs)]\<rparr>"
    then show ?thesis by (simp add: find_pks_append)
  next
    assume found: "find_pks (\<lambda>l. loc_name l = name) (locations st) = [site]"
      and "st' = st\<lparr>locations := (locations st)
                  [site := \<lparr>loc_name = name, location_type = t, status = active_status rf,
                          parent = Some c\<rparr>],
                logger := logger st @
                  [(INFO, ''Updated location: '' @ name @ '' in '' @ city @ '', '' @ fs)]\<rparr>"
    moreover from found have "site < length (locations st)" "loc_name (locations st ! site) = name"
      by (auto dest: find_pks_single)
    ultimately show ?thesis by (simp add: find_pks_update)
  qed
qed

lemma row_body_one_record:
  assumes "row_body rf r st = (st', Inr site)" and "r ''name'' = Some name"
  shows "find_pks (\<lambda>l. loc_name l = name) (locations st') = [site]"
proof -
  from row_body_Inr [OF assms(1)] assms(2) obtain t c city fs st2
    where "resolve_site rf t c name city fs st2 = (st', Inr site)"
    by auto
  then show ?thesis by (simp add: resolve_site_one_record)
qed

text \<open>
  Claim C1. Step 3 looks the site up by its name and by nothing else: the filter reads no
  type, no parent, no city and no state. When no location has the name, the site is
  appended with the classified type, the status Active and the row's City as parent. When
  one location has the name, that record is rewritten in place: its type, status and
  parent become the values computed from this row, so the record is the one a creation
  would have written, and no record is added. (When several locations have the name, the
  lookup raises and nothing is written.) So after a row that succeeds exactly one
  location has the row's name, with the type classified from the name and the City of
  this row as parent; and a second row with the same name writes the same record again,
  under its own City, and adds no second record of that name.
\<close>

theorem site_upsert_keyed_on_name:
  "(find_pks (\<lambda>l. loc_name l = name) (locations st) = [] \<longrightarrow>
    resolve_site rf t c name city fs st =
      (st\<lparr>locations := locations st @
             [\<lparr>loc_name = name, location_type = t, status = active_status rf,
               parent = Some c\<rparr>],
           logger := logger st @
             [(INFO, ''Created location: '' @ name @ '' in '' @ city @ '', '' @ fs)]\<rparr>,
       Inr (length (locations st)))) \<and>
   (find_pks (\<lambda>l. loc_name l = name) (locations st) = [site] \<longrightarrow>
    resolve_site rf t c name city fs st =
      (st\<lparr>locations := (locations st)
             [site := \<lparr>loc_name = name, location_type = t, status = active_status rf,
                       parent = Some c\<rparr>],
           logger := logger st @
             [(INFO, ''Updated location: '' @ name @ '' in '' @ city @ '', '' @ fs)]\<rparr>,
       Inr site)) \<and>
   (row_body rf r st = (st', Inr site') \<and> r ''name'' = Some name \<longrightarrow>
    find_pks (\<lambda>l. loc_name l = name) (locations st') = [site'] \<and>
    (\<exists>state city' s c' t' st1 st2.
       r ''state'' = Some state \<and> r ''city'' = Some city' \<and>
       resolve_state rf (normalize_state state) st = (st1, Inr s) \<and>
       resolve_city rf city' (normalize_state state) s st1 = (st2, Inr c') \<and>
       get_location_type name st2 = Inr t' \<and>
       locations st' ! site' =
         \<lparr>loc_name = name, location_type = t', status = active_status rf,
          parent = Some c'\<rparr>)) \<and>
   (row_body rf r st = (st', Inr site') \<and> r ''name'' = Some name \<and>
    row_body rf r2 st' = (st'', Inr site'') \<and> r2 ''name'' = Some name \<longrightarrow>
    site'' = site' \<and> find_pks (\<lambda>l. loc_name l = name) (locations st'') = [site'])"
proof (intro conjI impI)
  assume "find_pks (\<lambda>l. loc_name l = name) (locations st) = []"
  then show "resolve_site rf t c name city fs st =
      (st\<lparr>locations := locations st @
             [\<lparr>loc_name = name, location_type = t, status = active_status rf,
               parent = Some c\<rparr>],
           logger := logger st @
             [(INFO, ''Created location: '' @ name @ '' in '' @ city @ '', '' @ fs)]\<rparr>,
       Inr (length (locations st)))"
    by (rule resolve_site_created)
next
  assume "find_pks (\<lambda>l. loc_name l = name) (locations st) = [site]"
  then show "resolve_site rf t c name city fs st =
      (st\<lparr>locations := (locations st)
             [site := \<lparr>loc_name = name, location_type = t, status = active_status rf,
                       parent = Some c\<rparr>],
           logger := logger st @
             [(INFO, ''Updated location: '' @ name @ '' in '' @ city @ '', '' @ fs)]\<rparr>,
       Inr site)"
    by (rule resolve_site_found)
next
  assume a: "row_body rf r st = (st', Inr site') \<and> r ''name'' = Some name"
  then show "find_pks (\<lambda>l. loc_name l = name) (locations st') = [site']"
    by (blast intro: row_body_one_record)
  from a row_body_Inr [of rf r st st' site']
  obtain state city' s c' t' st1 st2 where
    "r ''state'' = Some state" "r ''city'' = Some city'"
    "resolve_state rf (normalize_state state) st = (st1, Inr s)"
    "resolve_city rf city' (normalize_state state) s st1 = (st2, Inr c')"
    "get_location_type name st2 = Inr t'"
    "resolve_site rf t' c' name city' (normalize_state state) st2 = (st', Inr site')"
    by auto
  moreover from this have "locations st' ! site' =
         \<lparr>loc_name = name, location_type = t', status = active_status rf, parent = Some c'\<rparr>"
    by (simp add: resolve_site_one_record)
  ultimately show "\<exists>state city' s c' t' st1 st2.
       r ''state'' = Some state \<and> r ''city'' = Some city' \<and>
       resolve_state rf (normalize_state state) st = (st1, Inr s) \<and>
       resolve_city rf city' (normalize_state state) s st1 = (st2, Inr c') \<and>
       get_location_type name st2 = Inr t' \<and>
       locations st' ! site' =
         \<lparr>loc_name = name, location_type = t', status = active_status rf,
          parent = Some c'\<rparr>"
    by blast
next
  assume a: "row_body rf r st = (st', Inr site') \<and> r ''name'' = Some name \<and>
    row_body rf r2 st' = (st'', Inr site'') \<and> r2 ''name'' = Some name"
  then have one: "find_pks (\<lambda>l. loc_name l = name) (locations st') = [site']"
    and two: "find_pks (\<lambda>l. loc_name l = name) (locations st'') = [site'']"
    by (blast intro: row_body_one_record)+
  from one have "site' < length (locations st')" "loc_name (locations st' ! site') = name"
    by (auto dest: find_pks_single)
  moreover from a have "grows st' st''"
    by (blast intro: row_body_grows)
  ultimately have "site' < length (locations st'')" "loc_name (locations st'' ! site') = name"
    by (simp_all add: grows_nth)
  with two have "site' = site''"
    by (simp add: find_pks_one)
  with two show "site'' = site'" "find_pks (\<lambda>l. loc_name l = name) (locations st'') = [site']"
    by simp_all
qed

theorem site_upsert_keyed_on_name_witness:
  "resolve_site reference_refs 3 1 ''HQ-BR'' ''Austin'' ''Texas'' texas_store =
     (texas_store
        \<lparr>locations := locations texas_store @
           [\<lparr>loc_name = ''HQ-BR'', location_type = 3, status = 0, parent = Some 1\<rparr>],
         logger := [(INFO, ''Created location: HQ-BR in Austin, Texas'')]\<rparr>,
      Inr 2) \<and>
   resolve_site reference_refs 3 4 ''HQ-BR'' ''Denver'' ''Colorado'' denver_city_store =
     (relocated_store, Inr 2) \<and>
   row_body reference_refs hq_br_austin reference_store = (austin_site_store, Inr 2) \<and>
   row_body reference_refs hq_br_denver austin_site_store = (relocated_store, Inr 2) \<and>
   find_pks (\<lambda>l. loc_name l = ''HQ-BR'') (locations relocated_store) = [2] \<and>
   locations relocated_store ! 2 =
     \<lparr>loc_name = ''HQ-BR'', location_type = 3, status = 0, parent = Some 4\<rparr> \<and>
   locations relocated_store ! 4 =
     \<lparr>loc_name = ''Denver'', location_type = 1, status = 0, parent = Some 3\<rparr>"
proof -
  have a: "find_pks (\<lambda>l. loc_name l = ''HQ-BR'') (locations texas_store) = []"
    by (simp add: texas_store_def find_pks_def)
  have b: "find_pks (\<lambda>l. loc_name l = ''HQ-BR'') (locations denver_city_store) = [2]"
    by (simp add: denver_city_store_def find_pks_def)
  have r1: "row_body reference_refs hq_br_austin reference_store = (austin_site_store, Inr 2)"
    by code_simp
  have r2: "row_body reference_refs hq_br_denver austin_site_store = (relocated_store, Inr 2)"
    by code_simp
  have n: "hq_br_austin ''name'' = Some ''HQ-BR''" "hq_br_denver ''name'' = Some ''HQ-BR''"
    by (simp_all add: hq_br_austin_def hq_br_denver_def csv_row_def)
  from a b r1 r2 n show ?thesis
    using site_upsert_keyed_on_name [where name = "''HQ-BR''" and st = texas_store
        and rf = reference_refs and t = 3 and c = 1 and city = "''Austin''" and fs = "''Texas''"]
      site_upsert_keyed_on_name [where name = "''HQ-BR''" and st = denver_city_store
        and rf = reference_refs and t = 3 and c = 4 and city = "''Denver''"
        and fs = "''Colorado''" and site = 2]
      site_upsert_keyed_on_name [where name = "''HQ-BR''" and st = reference_store
        and rf = reference_refs and r = hq_br_austin and st' = austin_site_store and site' = 2
        and ?r2.0 = hq_br_denver and st'' = relocated_store and site'' = 2]
    by (simp add: reference_refs_def texas_store_def denver_city_store_def relocated_store_def)
qed

subsection \<open>Running the same rows again\<close>

text \<open>
  A title-cased string has no uppercase letter after a letter, so it ends neither in
  \<open>''-DC''\<close> nor in \<open>''-BR''\<close>; nor does a full name of the table. A normalized state
  name is therefore never a name the classifier accepts.
\<close>

lemma to_lower_not_upper: "\<not> is_upper (to_lower c)"
  by (auto simp: to_lower_def is_upper_def)

lemma is_cased_to_lower: "is_cased (to_lower c) = is_cased c"
  by (auto simp: to_lower_def is_cased_def is_upper_def is_lower_def)

lemma is_cased_to_upper: "is_cased (to_upper c) = is_cased c"
  by (auto simp: to_upper_def is_cased_def is_upper_def is_lower_def)

lemma do_title_no_upper_after: "no_upper_after prev (do_title prev s)"
  by (induction s arbitrary: prev)
    (simp_all add: to_lower_not_upper is_cased_to_lower is_cased_to_upper)

lemma no_upper_after_end:
  "no_upper_after prev (p @ [a, b]) \<Longrightarrow> is_cased a \<Longrightarrow> \<not> is_upper b"
  by (induction p arbitrary: prev) auto

lemma title_no_site_suffix: "\<not> endswith (title s) ''-DC'' \<and> \<not> endswith (title s) ''-BR''"
proof -
  have "False" if "title s = p @ [x, a, b]" "is_cased a" "is_upper b" for p x a b
  proof -
    from that(1) have "no_upper_after False ((p @ [x]) @ [a, b])"
      using do_title_no_upper_after [of False s] by (simp add: title_def)
    with that(2,3) show False by (blast dest: no_upper_after_end)
  qed
  moreover have "is_cased CHR ''D''" "is_upper CHR ''C''" "is_cased CHR ''B''" "is_upper CHR ''R''"
    by (simp_all add: is_cased_def is_upper_def)
  ultimately show ?thesis
    by (auto simp: endswith_iff)
qed

lemma STATE_MAPPING_no_site_suffix:
  "\<forall>(abbreviation, full_name) \<in> set STATE_MAPPING.
     \<not> endswith full_name ''-DC'' \<and> \<not> endswith full_name ''-BR''"
  by (simp add: STATE_MAPPING_def endswith_def)

lemma normalize_state_no_site_suffix:
  "\<not> endswith (normalize_state state) ''-DC'' \<and> \<not> endswith (normalize_state state) ''-BR''"
proof (cases "map_of STATE_MAPPING state")
  case None
  then show ?thesis by (simp add: normalize_state_def title_no_site_suffix)
next
  case (Some full_name)
  then have "(state, full_name) \<in> set STATE_MAPPING" by (rule map_of_SomeD)
  with STATE_MAPPING_no_site_suffix Some show ?thesis
    by (auto simp: normalize_state_def)
qed

lemma get_location_type_Inr_suffix:
  "get_location_type name st = Inr t \<Longrightarrow> endswith name ''-DC'' \<or> endswith name ''-BR''"
  by (auto simp: get_location_type_def split: if_splits)

lemma keep_append: "find_pks q table = [x] \<Longrightarrow> \<not> q new \<Longrightarrow> find_pks q (table @ [new]) = [x]"
  by (simp add: find_pks_append)

lemma keep_update:
  "find_pks q table = [x] \<Longrightarrow> q new = q (table ! pk) \<Longrightarrow> find_pks q (table[pk := new]) = [x]"
  by (simp add: find_pks_update)

lemma get_location_type_cong:
  "location_types st' = location_types st \<Longrightarrow> get_location_type name st' = get_location_type name st"
  by (simp add: get_location_type_def)

lemma resolve_state_key:
  assumes "resolve_state rf n st = (st', Inr s)"
  shows "find_pks (\<lambda>l. loc_name l = n \<and> location_type l = state_type rf) (locations st') = [s]"
  using resolve_state_Inr [OF assms] by (auto simp: find_pks_append)

lemma resolve_city_key:
  assumes "resolve_city rf city fs s st = (st', Inr c)"
  shows "find_pks (\<lambda>l. loc_name l = city \<and> location_type l = city_type rf \<and> parent l = Some s)
           (locations st') = [c]"
  using resolve_city_Inr [OF assms] by (auto simp: find_pks_append)

lemma state_step_keeps:
  assumes "resolve_state rf n st = (st', Inr s)" and "find_pks q (locations st) = [x]"
    and "q \<lparr>loc_name = n, location_type = state_type rf, status = active_status rf, parent = None\<rparr>
         \<Longrightarrow> find_pks (\<lambda>l. loc_name l = n \<and> location_type l = state_type rf) (locations st) \<noteq> []"
  shows "find_pks q (locations st') = [x]"
  using resolve_state_Inr [OF assms(1)] assms(2,3) by (auto simp: find_pks_append)

lemma city_step_keeps:
  assumes "resolve_city rf city fs s st = (st', Inr c)" and "find_pks q (locations st) = [x]"
    and "q \<lparr>loc_name = city, location_type = city_type rf, status = active_status rf,
            parent = Some s\<rparr>
         \<Longrightarrow> find_pks (\<lambda>l. loc_name l = city \<and> location_type l = city_type rf \<and>
                           parent l = Some s) (locations st) \<noteq> []"
  shows "find_pks q (locations st') = [x]"
  using resolve_city_Inr [OF assms(1)] assms(2,3) by (auto simp: find_pks_append)

lemma site_step_keeps:
  assumes "resolve_site rf t c name city fs st = (st', Inr site)"
    and "find_pks q (locations st) = [x]"
    and "\<And>l. loc_name l = name \<Longrightarrow> \<not> q l"
  shows "find_pks q (locations st') = [x]"
proof -
  from resolve_site_Inr [OF assms(1)] show ?thesis
  proof (elim disjE conjE)
    assume "st' = st\<lparr>locations := locations st @
                  [\<lparr>loc_name = name, location_type = t, status = active_status rf,
                    parent = Some c\<rparr>],
                logger := logger st @
                  [(INFO, ''Created location: '' @ name @ '' in '' @ city @ '', '' @ fs)]\<rparr>"
    with assms(2,3) show ?thesis by (simp add: find_pks_append)
  next
    assume found: "find_pks (\<lambda>l. loc_name l = name) (locations st) = [site]"
      and st': "st' = st\<lparr>locations := (locations st)
                  [site := \<lparr>loc_name = name, location_type = t, status = active_status rf,
                          parent = Some c\<rparr>],
                logger := logger st @
                  [(INFO, ''Updated location: '' @ name @ '' in '' @ city @ '', '' @ fs)]\<rparr>"
    from found have "loc_name (locations st ! site) = name"
      by (auto dest: find_pks_single)
    with assms(3) have "q \<lparr>loc_name = name, location_type = t, status = active_status rf,
        parent = Some c\<rparr> = q (locations st ! site)"
      by simp
    with assms(2) st' show ?thesis by (simp add: find_pks_update)
  qed
qed

lemma site_step_keeps_site:
  assumes "resolve_site rf t c name city fs st = (st', Inr site)"
    and "find_pks (\<lambda>l. loc_name l = name) (locations st) = [x]"
  shows "find_pks (\<lambda>l. loc_name l = name) (locations st') = [x]"
  using resolve_site_Inr [OF assms(1)] assms(2) resolve_site_one_record [OF assms(1)]
  by auto

text \<open>A row that succeeds leaves its own three lookups resolved, and its site written.\<close>

lemma row_body_resolves:
  assumes "row_body rf r st = (st', Inr site)"
    and "state_type rf \<noteq> city_type rf" and "apart r r"
  shows "\<exists>state city name s c t.
           r ''state'' = Some state \<and> r ''city'' = Some city \<and> r ''name'' = Some name \<and>
           resolved rf st' state city name s c site t \<and>
           locations st' ! site =
             \<lparr>loc_name = name, location_type = t, status = active_status rf, parent = Some c\<rparr>"
proof -
  from row_body_Inr [OF assms(1)] obtain state city name s c t st1 st2 where
    r: "r ''state'' = Some state" "r ''city'' = Some city" "r ''name'' = Some name"
    and s1: "resolve_state rf (normalize_state state) st = (st1, Inr s)"
    and s2: "resolve_city rf city (normalize_state state) s st1 = (st2, Inr c)"
    and ty: "get_location_type name st2 = Inr t"
    and s3: "resolve_site rf t c name city (normalize_state state) st2 = (st', Inr site)"
    by blast
  from assms(3) r have ne: "city \<noteq> name" "normalize_state state \<noteq> name"
    by (auto simp: apart_def)
  have k1: "find_pks (\<lambda>l. loc_name l = normalize_state state \<and> location_type l = state_type rf)
      (locations st1) = [s]"
    using s1 by (rule resolve_state_key)
  have k1': "find_pks (\<lambda>l. loc_name l = normalize_state state \<and> location_type l = state_type rf)
      (locations st2) = [s]"
    using s2 k1 by (rule city_step_keeps) (use assms(2) in simp)
  have k2: "find_pks (\<lambda>l. loc_name l = city \<and> location_type l = city_type rf \<and>
      parent l = Some s) (locations st2) = [c]"
    using s2 by (rule resolve_city_key)
  have "find_pks (\<lambda>l. loc_name l = normalize_state state \<and> location_type l = state_type rf)
      (locations st') = [s]"
    using s3 k1' by (rule site_step_keeps) (use ne in simp)
  moreover have "find_pks (\<lambda>l. loc_name l = city \<and> location_type l = city_type rf \<and>
      parent l = Some s) (locations st') = [c]"
    using s3 k2 by (rule site_step_keeps) (use ne in simp)
  moreover from s3 have "grows st2 st'" by (rule resolve_site_grows)
  then have "get_location_type name st' = Inr t"
    using ty get_location_type_cong [of st' st2 name] by (simp add: grows_def)
  ultimately show ?thesis
    using r resolve_site_one_record [OF s3] by (auto simp: resolved_def)
qed

text \<open>A row whose names are apart from those of a resolved row keeps it resolved.\<close>

lemma row_body_keeps_resolved:
  assumes "row_body rf r' st = (st', Inr site')"
    and res: "resolved rf st state city name s c site t"
    and r: "r ''state'' = Some state" "r ''city'' = Some city" "r ''name'' = Some name"
    and "state_type rf \<noteq> city_type rf" and "apart r r'" and "apart r' r"
  shows "resolved rf st' state city name s c site t"
proof -
  from row_body_Inr [OF assms(1)] obtain state' city' name' s' c' t' st1 st2 where
    r': "r' ''state'' = Some state'" "r' ''city'' = Some city'" "r' ''name'' = Some name'"
    and s1: "resolve_state rf (normalize_state state') st = (st1, Inr s')"
    and s2: "resolve_city rf city' (normalize_state state') s' st1 = (st2, Inr c')"
    and s3: "resolve_site rf t' c' name' city' (normalize_state state') st2 = (st', Inr site')"
    by blast
  from assms(7,8) r r' have ne: "city \<noteq> name'" "normalize_state state \<noteq> name'"
    "city' \<noteq> name" "normalize_state state' \<noteq> name"
    by (auto simp: apart_def)
  note ty = assms(6)
  from res have k: "find_pks (\<lambda>l. loc_name l = normalize_state state \<and>
        location_type l = state_type rf) (locations st) = [s]"
    "find_pks (\<lambda>l. loc_name l = city \<and> location_type l = city_type rf \<and> parent l = Some s)
        (locations st) = [c]"
    "find_pks (\<lambda>l. loc_name l = name) (locations st) = [site]"
    "get_location_type name st = Inr t"
    by (simp_all add: resolved_def)
  have a1: "find_pks (\<lambda>l. loc_name l = normalize_state state \<and>
        location_type l = state_type rf) (locations st1) = [s]"
    using s1 k(1) by (rule state_step_keeps) (use k(1) in auto)
  have a2: "find_pks (\<lambda>l. loc_name l = city \<and> location_type l = city_type rf \<and>
        parent l = Some s) (locations st1) = [c]"
    using s1 k(2) by (rule state_step_keeps) simp
  have a3: "find_pks (\<lambda>l. loc_name l = name) (locations st1) = [site]"
    using s1 k(3) by (rule state_step_keeps) (use ne in simp)
  have b1: "find_pks (\<lambda>l. loc_name l = normalize_state state \<and>
        location_type l = state_type rf) (locations st2) = [s]"
    using s2 a1 by (rule city_step_keeps) (use ty in simp)
  have b2: "find_pks (\<lambda>l. loc_name l = city \<and> location_type l = city_type rf \<and>
        parent l = Some s) (locations st2) = [c]"
    using s2 a2 by (rule city_step_keeps) (use a2 in auto)
  have b3: "find_pks (\<lambda>l. loc_name l = name) (locations st2) = [site]"
    using s2 a3 by (rule city_step_keeps) (use ne in simp)
  have c1: "find_pks (\<lambda>l. loc_name l = normalize_state state \<and>
        location_type l = state_type rf) (locations st') = [s]"
    using s3 b1 by (rule site_step_keeps) (use ne in simp)
  have c2: "find_pks (\<lambda>l. loc_name l = city \<and> location_type l = city_type rf \<and>
        parent l = Some s) (locations st') = [c]"
    using s3 b2 by (rule site_step_keeps) (use ne in simp)
  have c3: "find_pks (\<lambda>l. loc_name l = name) (locations st') = [site]"
  proof (cases "name' = name")
    case True
    from s3 [unfolded True] b3 show ?thesis by (rule site_step_keeps_site)
  next
    case False
    from s3 b3 show ?thesis by (rule site_step_keeps) (use False in simp)
  qed
  from assms(1) have "grows st st'" by (rule row_body_grows)
  with k(4) have "get_location_type name st' = Inr t"
    using get_location_type_cong [of st' st name] by (simp add: grows_def)
  with c1 c2 c3 show ?thesis by (simp add: resolved_def)
qed

text \<open>A row with another site name leaves the record of a site as it is.\<close>

lemma row_body_frame:
  assumes "row_body rf r st = (st', Inr site)" and "pk < length (locations st)"
    and "r ''name'' \<noteq> Some (loc_name (locations st ! pk))"
  shows "locations st' ! pk = locations st ! pk"
proof -
  from row_body_Inr [OF assms(1)] obtain state city name s c t st1 st2 where
    r: "r ''name'' = Some name"
    and s1: "resolve_state rf (normalize_state state) st = (st1, Inr s)"
    and s2: "resolve_city rf city (normalize_state state) s st1 = (st2, Inr c)"
    and s3: "resolve_site rf t c name city (normalize_state state) st2 = (st', Inr site)"
    by blast
  from s1 have p1: "prefix (locations st) (locations st1)" by (rule resolve_state_prefix)
  from s2 have p2: "prefix (locations st1) (locations st2)" by (rule resolve_city_prefix)
  from p1 p2 have "prefix (locations st) (locations st2)" by (rule prefix_order.trans)
  then obtain zs where zs: "locations st2 = locations st @ zs"
    by (auto simp: prefix_def)
  with assms(2) have same: "locations st2 ! pk = locations st ! pk" "pk < length (locations st2)"
    by (simp_all add: nth_append)
  from resolve_site_Inr [OF s3] have "locations st' ! pk = locations st2 ! pk"
  proof (elim disjE conjE)
    assume "st' = st2\<lparr>locations := locations st2 @
                  [\<lparr>loc_name = name, location_type = t, status = active_status rf,
                    parent = Some c\<rparr>],
                logger := logger st2 @
                  [(INFO, ''Created location: '' @ name @ '' in '' @ city @ '', '' @
                          normalize_state state)]\<rparr>"
    with same show ?thesis by (simp add: nth_append)
  next
    assume found: "find_pks (\<lambda>l. loc_name l = name) (locations st2) = [site]"
      and st': "st' = st2\<lparr>locations := (locations st2)
                  [site := \<lparr>loc_name = name, location_type = t, status = active_status rf,
                          parent = Some c\<rparr>],
                logger := logger st2 @
                  [(INFO, ''Updated location: '' @ name @ '' in '' @ city @ '', '' @
                          normalize_state state)]\<rparr>"
    from found have "loc_name (locations st2 ! site) = name"
      by (auto dest: find_pks_single)
    with assms(3) r same have "site \<noteq> pk" by auto
    with st' show ?thesis by simp
  qed
  with same show ?thesis by simp
qed

text \<open>On a store where its lookups are resolved, a row only overwrites its site.\<close>

lemma row_body_on_resolved:
  assumes "resolved rf st state city name s c site t"
    and "r ''state'' = Some state" "r ''city'' = Some city" "r ''name'' = Some name"
  shows "row_body rf r st =
    (st\<lparr>locations := (locations st)
           [site := \<lparr>loc_name = name, location_type = t, status = active_status rf,
                     parent = Some c\<rparr>],
         logger := logger st @ [updated_line r]\<rparr>,
     Inr site)"
  using assms
  by (simp add: resolved_def row_body_def row_item_def resolve_state_found resolve_city_found
      resolve_site_found updated_line_def row_get_def)

lemma names_apartD: "names_apart R \<Longrightarrow> r \<in> set R \<Longrightarrow> r' \<in> set R \<Longrightarrow> apart r r'"
  by (simp add: names_apart_def list_all_iff)

lemma get_refs_types_differ:
  assumes "get_refs st = Inr rf"
  shows "state_type rf \<noteq> city_type rf"
proof -
  from assms have "location_types st ! state_type rf = ''State''"
    "location_types st ! city_type rf = ''City''"
    by (auto simp: get_refs_def objects_get_Inr split: sum.splits dest: find_pks_single)
  then show ?thesis by auto
qed

lemma get_refs_grows: "grows st st' \<Longrightarrow> get_refs st' = get_refs st"
  by (simp add: grows_def get_refs_def cong: sum.case_cong)

lemma resolved_unique:
  assumes "resolved rf st state city name s c site t"
    and "resolved rf st state city name s' c' site' t'"
  shows "s' = s \<and> c' = c \<and> site' = site \<and> t' = t"
  using assms by (auto simp: resolved_def)

lemma run_rows_keeps_resolved:
  assumes "run_rows rf rows acc st = (st', Inr acc')"
    and "resolved rf st state city name s c site t"
    and "r ''state'' = Some state" "r ''city'' = Some city" "r ''name'' = Some name"
    and "state_type rf \<noteq> city_type rf"
    and "\<forall>r' \<in> set rows. apart r r' \<and> apart r' r"
  shows "resolved rf st' state city name s c site t"
  using assms(1,2,7)
proof (induction rows arbitrary: acc st)
  case Nil
  then show ?case by simp
next
  case (Cons r' rows)
  from Cons.prems(1) obtain st1 site' where step: "process_row rf r' st = (st1, Inr site')"
    and rest: "run_rows rf rows (acc @ [site']) st1 = (st', Inr acc')"
    by (auto split: prod.splits sum.splits)
  from step have body: "row_body rf r' st = (st1, Inr site')"
    by (simp add: process_row_Inr)
  from Cons.prems(3) have ap: "apart r r'" "apart r' r"
    and later: "\<forall>r' \<in> set rows. apart r r' \<and> apart r' r"
    by simp_all
  have "resolved rf st1 state city name s c site t"
    by (rule row_body_keeps_resolved [OF body Cons.prems(2) assms(3,4,5,6) ap])
  with rest show ?case
    using later by (rule Cons.IH)
qed

lemma run_rows_frame:
  assumes "run_rows rf rows acc st = (st', Inr acc')" and "pk < length (locations st)"
    and "\<forall>r \<in> set rows. r ''name'' \<noteq> Some (loc_name (locations st ! pk))"
  shows "locations st' ! pk = locations st ! pk"
  using assms
proof (induction rows arbitrary: acc st)
  case Nil
  then show ?case by simp
next
  case (Cons r rows)
  from Cons.prems(1) obtain st1 site where step: "process_row rf r st = (st1, Inr site)"
    and rest: "run_rows rf rows (acc @ [site]) st1 = (st', Inr acc')"
    by (auto split: prod.splits sum.splits)
  from step have body: "row_body rf r st = (st1, Inr site)"
    by (simp add: process_row_Inr)
  from Cons.prems(3) have "r ''name'' \<noteq> Some (loc_name (locations st ! pk))"
    by simp
  with body Cons.prems(2) have same: "locations st1 ! pk = locations st ! pk"
    by (rule row_body_frame)
  from body have "grows st st1" by (rule row_body_grows)
  with Cons.prems(2) have lt: "pk < length (locations st1)"
    by (simp add: grows_nth)
  from Cons.prems(3) same
  have "\<forall>r \<in> set rows. r ''name'' \<noteq> Some (loc_name (locations st1 ! pk))"
    by simp
  with rest lt have "locations st' ! pk = locations st1 ! pk"
    by (rule Cons.IH)
  with same show ?case by simp
qed

lemma run_rows_resolves_all:
  assumes "run_rows rf rows acc st = (st', Inr acc')"
    and "state_type rf \<noteq> city_type rf" and "names_apart R" and "set rows \<subseteq> set R"
  shows "\<forall>r \<in> set rows. \<exists>state city name s c site t.
           r ''state'' = Some state \<and> r ''city'' = Some city \<and> r ''name'' = Some name \<and>
           resolved rf st' state city name s c site t"
  using assms(1,4)
proof (induction rows arbitrary: acc st)
  case Nil
  then show ?case by simp
next
  case (Cons r rows)
  from Cons.prems(1) obtain st1 site where step: "process_row rf r st = (st1, Inr site)"
    and rest: "run_rows rf rows (acc @ [site]) st1 = (st', Inr acc')"
    by (auto split: prod.splits sum.splits)
  from step have body: "row_body rf r st = (st1, Inr site)"
    by (simp add: process_row_Inr)
  from Cons.prems(2) have in_R: "r \<in> set R" "set rows \<subseteq> set R" by simp_all
  from in_R(1) assms(3) have "apart r r" by (simp add: names_apartD)
  with body assms(2) obtain state city name s c t where
    r: "r ''state'' = Some state" "r ''city'' = Some city" "r ''name'' = Some name"
    and res: "resolved rf st1 state city name s c site t"
    by (blast dest: row_body_resolves)
  from in_R assms(3) have "\<forall>r' \<in> set rows. apart r r' \<and> apart r' r"
    by (auto intro: names_apartD)
  with rest res r assms(2) have "resolved rf st' state city name s c site t"
    by (rule run_rows_keeps_resolved)
  with r have "\<exists>state city name s c site t.
           r ''state'' = Some state \<and> r ''city'' = Some city \<and> r ''name'' = Some name \<and>
           resolved rf st' state city name s c site t"
    by blast
  moreover from rest in_R(2) have "\<forall>r \<in> set rows. \<exists>state city name s c site t.
           r ''state'' = Some state \<and> r ''city'' = Some city \<and> r ''name'' = Some name \<and>
           resolved rf st' state city name s c site t"
    by (rule Cons.IH)
  ultimately show ?case by simp
qed

lemma run_rows_last_write:
  assumes "run_rows rf (xs @ r # ys) acc st = (st', Inr acc')"
    and "state_type rf \<noteq> city_type rf" and "names_apart (xs @ r # ys)"
    and "r ''name'' = Some name" and "\<forall>r' \<in> set ys. r' ''name'' \<noteq> Some name"
  shows "\<exists>state city s c site t.
           r ''state'' = Some state \<and> r ''city'' = Some city \<and>
           resolved rf st' state city name s c site t \<and>
           locations st' ! site =
             \<lparr>loc_name = name, location_type = t, status = active_status rf, parent = Some c\<rparr>"
proof -
  from assms(1) obtain st_a acc_a where "run_rows rf (r # ys) acc_a st_a = (st', Inr acc')"
    by (auto simp: run_rows_append split: prod.splits sum.splits)
  then obtain st_b site where step: "process_row rf r st_a = (st_b, Inr site)"
    and rest: "run_rows rf ys (acc_a @ [site]) st_b = (st', Inr acc')"
    by (auto split: prod.splits sum.splits)
  from step have body: "row_body rf r st_a = (st_b, Inr site)"
    by (simp add: process_row_Inr)
  from assms(3) have "apart r r" by (simp add: names_apartD)
  with body assms(2,4) obtain state city s c t where
    r: "r ''state'' = Some state" "r ''city'' = Some city"
    and res: "resolved rf st_b state city name s c site t"
    and rec: "locations st_b ! site =
      \<lparr>loc_name = name, location_type = t, status = active_status rf, parent = Some c\<rparr>"
    by (auto dest!: row_body_resolves)
  from assms(3) have "\<forall>r' \<in> set ys. apart r r' \<and> apart r' r"
    by (auto intro: names_apartD)
  with rest res r assms(4,2) have res': "resolved rf st' state city name s c site t"
    by (rule run_rows_keeps_resolved)
  from res have "site < length (locations st_b)"
    by (auto simp: resolved_def dest: find_pks_single)
  moreover from assms(5) rec
  have "\<forall>r' \<in> set ys. r' ''name'' \<noteq> Some (loc_name (locations st_b ! site))"
    by simp
  ultimately have "locations st' ! site = locations st_b ! site"
    using rest by (intro run_rows_frame [OF rest])
  with rec res' r show ?thesis by auto
qed

lemma run_rows_on_resolved:
  assumes "\<forall>r \<in> set R. \<exists>state city name s c site t.
             r ''state'' = Some state \<and> r ''city'' = Some city \<and> r ''name'' = Some name \<and>
             resolved rf st state city name s c site t"
    and "state_type rf \<noteq> city_type rf" and "names_apart R" and "set rows \<subseteq> set R"
  shows "\<exists>st' sites. run_rows rf rows acc st = (st', Inr (acc @ sites)) \<and>
           length sites = length rows \<and>
           length (locations st') = length (locations st) \<and>
           logger st' = logger st @ map updated_line rows"
  using assms(1,4)
proof (induction rows arbitrary: acc st)
  case Nil
  then show ?case by simp
next
  case (Cons r rows)
  from Cons.prems(2) have in_R: "r \<in> set R" "set rows \<subseteq> set R" by simp_all
  with Cons.prems(1) obtain state city name s c site t where
    r: "r ''state'' = Some state" "r ''city'' = Some city" "r ''name'' = Some name"
    and res: "resolved rf st state city name s c site t"
    by blast
  define st1 where "st1 = st\<lparr>locations := (locations st)
           [site := \<lparr>loc_name = name, location_type = t, status = active_status rf,
                     parent = Some c\<rparr>],
         logger := logger st @ [updated_line r]\<rparr>"
  from res r have body: "row_body rf r st = (st1, Inr site)"
    unfolding st1_def by (rule row_body_on_resolved)
  have "\<forall>r' \<in> set R. \<exists>state city name s c site t.
             r' ''state'' = Some state \<and> r' ''city'' = Some city \<and> r' ''name'' = Some name \<and>
             resolved rf st1 state city name s c site t"
  proof
    fix r' assume r': "r' \<in> set R"
    with Cons.prems(1) obtain state' city' name' s' c' site' t' where
      f: "r' ''state'' = Some state'" "r' ''city'' = Some city'" "r' ''name'' = Some name'"
      and res': "resolved rf st state' city' name' s' c' site' t'"
      by blast
    from r' in_R(1) assms(3) have "apart r' r" "apart r r'"
      by (simp_all add: names_apartD)
    with body res' f assms(2) have "resolved rf st1 state' city' name' s' c' site' t'"
      by (rule row_body_keeps_resolved)
    with f show "\<exists>state city name s c site t.
             r' ''state'' = Some state \<and> r' ''city'' = Some city \<and> r' ''name'' = Some name \<and>
             resolved rf st1 state city name s c site t"
      by blast
  qed
  from Cons.IH [OF this in_R(2), of "acc @ [site]"] obtain st' sites where
    "run_rows rf rows (acc @ [site]) st1 = (st', Inr ((acc @ [site]) @ sites))"
    "length sites = length rows" "length (locations st') = length (locations st1)"
    "logger st' = logger st1 @ map updated_line rows"
    by blast
  with body have "run_rows rf (r # rows) acc st = (st', Inr (acc @ (site # sites))) \<and>
           length (site # sites) = length (r # rows) \<and>
           length (locations st') = length (locations st) \<and>
           logger st' = logger st @ map updated_line (r # rows)"
    by (simp add: process_row_def st1_def)
  then show ?case by blast
qed

text \<open>Where the body of a row can stop, and what it has written by then.\<close>

lemma row_body_Inl:
  assumes "row_body rf r st = (st', Inl e)"
  shows "(st' = st \<and> r ''state'' = None \<and> e = KeyError ''state'') \<or>
         (\<exists>state. st' = st \<and> r ''state'' = Some state \<and>
            resolve_state rf (normalize_state state) st = (st, Inl e)) \<or>
         (\<exists>state s. r ''state'' = Some state \<and>
            resolve_state rf (normalize_state state) st = (st', Inr s) \<and>
            (r ''city'' = None \<and> e = KeyError ''city'' \<or>
             (\<exists>city. r ''city'' = Some city \<and>
                resolve_city rf city (normalize_state state) s st' = (st', Inl e)))) \<or>
         (\<exists>state city s c st1. r ''state'' = Some state \<and> r ''city'' = Some city \<and>
            resolve_state rf (normalize_state state) st = (st1, Inr s) \<and>
            resolve_city rf city (normalize_state state) s st1 = (st', Inr c) \<and>
            (r ''name'' = None \<and> e = KeyError ''name'' \<or>
             (\<exists>name. r ''name'' = Some name \<and>
                (get_location_type name st' = Inl e \<or>
                 (\<exists>t. get_location_type name st' = Inr t \<and>
                    resolve_site rf t c name city (normalize_state state) st' = (st', Inl e))))))"
  using assms unfolding row_body_def row_item_def
  by (auto split: option.splits sum.splits prod.splits
      dest: resolve_state_Inl resolve_city_Inl resolve_site_Inl)



lemma resolve_state_Inl_again:
  "resolve_state rf n st = (st', Inl e) \<Longrightarrow> locations st'' = locations st \<Longrightarrow>
   resolve_state rf n st'' = (st'', Inl e)"
  by (auto simp: resolve_state_def split: sum.splits)

lemma resolve_city_Inl_again:
  "resolve_city rf city fs s st = (st', Inl e) \<Longrightarrow> locations st'' = locations st \<Longrightarrow>
   resolve_city rf city fs s st'' = (st'', Inl e)"
  by (auto simp: resolve_city_def split: sum.splits)

lemma resolve_site_Inl_again:
  "resolve_site rf t c name city fs st = (st', Inl e) \<Longrightarrow> locations st'' = locations st \<Longrightarrow>
   resolve_site rf t c name city fs st'' = (st'', Inl e)"
  by (auto simp: resolve_site_def Let_def split: sum.splits)

lemma resolve_state_again:
  assumes "resolve_state rf n st = (st', Inr s)" and "locations st'' = locations st'"
  shows "resolve_state rf n st'' = (st'', Inr s)"
proof -
  from assms(1) have "find_pks (\<lambda>l. loc_name l = n \<and> location_type l = state_type rf)
      (locations st') = [s]"
    by (rule resolve_state_key)
  with assms(2) have "find_pks (\<lambda>l. loc_name l = n \<and> location_type l = state_type rf)
      (locations st'') = [s]"
    by simp
  then show ?thesis by (rule resolve_state_found)
qed

lemma resolve_city_again:
  assumes "resolve_city rf city fs s st = (st', Inr c)" and "locations st'' = locations st'"
  shows "resolve_city rf city fs s st'' = (st'', Inr c)"
proof -
  from assms(1) have "find_pks (\<lambda>l. loc_name l = city \<and> location_type l = city_type rf \<and>
      parent l = Some s) (locations st') = [c]"
    by (rule resolve_city_key)
  with assms(2) have "find_pks (\<lambda>l. loc_name l = city \<and> location_type l = city_type rf \<and>
      parent l = Some s) (locations st'') = [c]"
    by simp
  then show ?thesis by (rule resolve_city_found)
qed

lemma resolve_state_again_after_city:
  assumes "resolve_state rf n st = (st1, Inr s)"
    and "resolve_city rf city fs s' st1 = (st', Inr c)"
    and "state_type rf \<noteq> city_type rf" and "locations st'' = locations st'"
  shows "resolve_state rf n st'' = (st'', Inr s)"
proof -
  from assms(1) have "find_pks (\<lambda>l. loc_name l = n \<and> location_type l = state_type rf)
      (locations st1) = [s]"
    by (rule resolve_state_key)
  with assms(2) have "find_pks (\<lambda>l. loc_name l = n \<and> location_type l = state_type rf)
      (locations st') = [s]"
    by (rule city_step_keeps) (use assms(3) in simp)
  with assms(4) have "find_pks (\<lambda>l. loc_name l = n \<and> location_type l = state_type rf)
      (locations st'') = [s]"
    by simp
  then show ?thesis by (rule resolve_state_found)
qed

text \<open>
  A row that failed fails again, with the same exception and without a write, on any
  store that has the locations and the location types the failure left.
\<close>

lemma row_body_again:
  assumes "row_body rf r st = (st', Inl e)" and ty: "state_type rf \<noteq> city_type rf"
    and loc: "locations st'' = locations st'" and lt: "location_types st'' = location_types st'"
  shows "row_body rf r st'' = (st'', Inl e)"
proof -
  from row_body_Inl [OF assms(1)] show ?thesis
  proof (elim disjE exE conjE)
    assume "r ''state'' = None" "e = KeyError ''state''"
    then show ?thesis by (simp add: row_body_def row_item_def)
  next
    fix state assume "st' = st" "r ''state'' = Some state"
      "resolve_state rf (normalize_state state) st = (st, Inl e)"
    with loc show ?thesis
      using resolve_state_Inl_again [of rf "normalize_state state" st st e st'']
      by (simp add: row_body_def row_item_def)
  next
    fix state s assume r: "r ''state'' = Some state"
      and s1: "resolve_state rf (normalize_state state) st = (st', Inr s)"
      and c: "r ''city'' = None" "e = KeyError ''city''"
    from s1 loc have "resolve_state rf (normalize_state state) st'' = (st'', Inr s)"
      by (rule resolve_state_again)
    with r c show ?thesis by (simp add: row_body_def row_item_def)
  next
    fix state s city assume r: "r ''state'' = Some state" "r ''city'' = Some city"
      and s1: "resolve_state rf (normalize_state state) st = (st', Inr s)"
      and s2: "resolve_city rf city (normalize_state state) s st' = (st', Inl e)"
    from s1 loc have "resolve_state rf (normalize_state state) st'' = (st'', Inr s)"
      by (rule resolve_state_again)
    moreover from s2 loc have "resolve_city rf city (normalize_state state) s st'' = (st'', Inl e)"
      by (rule resolve_city_Inl_again)
    ultimately show ?thesis using r by (simp add: row_body_def row_item_def)
  next
    fix state city s c st1 assume r: "r ''state'' = Some state" "r ''city'' = Some city"
      and s1: "resolve_state rf (normalize_state state) st = (st1, Inr s)"
      and s2: "resolve_city rf city (normalize_state state) s st1 = (st', Inr c)"
      and n: "r ''name'' = None" "e = KeyError ''name''"
    from s1 s2 ty loc have "resolve_state rf (normalize_state state) st'' = (st'', Inr s)"
      by (rule resolve_state_again_after_city)
    moreover from s2 loc have "resolve_city rf city (normalize_state state) s st'' = (st'', Inr c)"
      by (rule resolve_city_again)
    ultimately show ?thesis using r n by (simp add: row_body_def row_item_def)
  next
    fix state city s c st1 name assume r: "r ''state'' = Some state" "r ''city'' = Some city"
      "r ''name'' = Some name"
      and s1: "resolve_state rf (normalize_state state) st = (st1, Inr s)"
      and s2: "resolve_city rf city (normalize_state state) s st1 = (st', Inr c)"
      and t: "get_location_type name st' = Inl e"
    from s1 s2 ty loc have "resolve_state rf (normalize_state state) st'' = (st'', Inr s)"
      by (rule resolve_state_again_after_city)
    moreover from s2 loc have "resolve_city rf city (normalize_state state) s st'' = (st'', Inr c)"
      by (rule resolve_city_again)
    moreover from t lt have "get_location_type name st'' = Inl e"
      using get_location_type_cong [of st'' st' name] by simp
    ultimately show ?thesis using r by (simp add: row_body_def row_item_def)
  next
    fix state city s c st1 name t assume r: "r ''state'' = Some state" "r ''city'' = Some city"
      "r ''name'' = Some name"
      and s1: "resolve_state rf (normalize_state state) st = (st1, Inr s)"
      and s2: "resolve_city rf city (normalize_state state) s st1 = (st', Inr c)"
      and t: "get_location_type name st' = Inr t"
      and s3: "resolve_site rf t c name city (normalize_state state) st' = (st', Inl e)"
    from s1 s2 ty loc have "resolve_state rf (normalize_state state) st'' = (st'', Inr s)"
      by (rule resolve_state_again_after_city)
    moreover from s2 loc have "resolve_city rf city (normalize_state state) s st'' = (st'', Inr c)"
      by (rule resolve_city_again)
    moreover from t lt have "get_location_type name st'' = Inr t"
      using get_location_type_cong [of st'' st' name] by simp
    moreover from s3 loc
    have "resolve_site rf t c name city (normalize_state state) st'' = (st'', Inl e)"
      by (rule resolve_site_Inl_again)
    ultimately show ?thesis using r by (simp add: row_body_def row_item_def)
  qed
qed

lemma row_body_Inl_steps:
  assumes "row_body rf r st = (st', Inl e)"
  obtains (none) "st' = st"
  | (state) state s where "r ''state'' = Some state"
      "resolve_state rf (normalize_state state) st = (st', Inr s)"
  | (city) state city s c st1 where "r ''state'' = Some state" "r ''city'' = Some city"
      "resolve_state rf (normalize_state state) st = (st1, Inr s)"
      "resolve_city rf city (normalize_state state) s st1 = (st', Inr c)"
  using row_body_Inl [OF assms] by blast

lemma row_body_Inl_prefix:
  assumes "row_body rf r st = (st', Inl e)"
  shows "prefix (locations st) (locations st')"
  using assms
proof (cases rule: row_body_Inl_steps)
  case none
  then show ?thesis by simp
next
  case (state state s)
  then show ?thesis by (blast dest: resolve_state_prefix)
next
  case (city state city s c st1)
  from city(3) have "prefix (locations st) (locations st1)" by (rule resolve_state_prefix)
  moreover from city(4) have "prefix (locations st1) (locations st')"
    by (rule resolve_city_prefix)
  ultimately show ?thesis by (rule prefix_order.trans)
qed

text \<open>A row that fails keeps a resolved row resolved, when its names are apart from it.\<close>

lemma row_body_Inl_keeps_resolved:
  assumes "row_body rf r' st = (st', Inl e)"
    and res: "resolved rf st state city name s c site t"
    and ty: "state_type rf \<noteq> city_type rf"
    and ne: "r' ''city'' \<noteq> Some name" "map_option normalize_state (r' ''state'') \<noteq> Some name"
  shows "resolved rf st' state city name s c site t"
proof -
  from res have k: "find_pks (\<lambda>l. loc_name l = normalize_state state \<and>
        location_type l = state_type rf) (locations st) = [s]"
    "find_pks (\<lambda>l. loc_name l = city \<and> location_type l = city_type rf \<and> parent l = Some s)
        (locations st) = [c]"
    "find_pks (\<lambda>l. loc_name l = name) (locations st) = [site]"
    "get_location_type name st = Inr t"
    by (simp_all add: resolved_def)
  from assms(1) have "grows st st'" by (rule row_body_grows)
  with k(4) have t: "get_location_type name st' = Inr t"
    using get_location_type_cong [of st' st name] by (simp add: grows_def)
  have after_state: "resolved rf st1 state city name s c site t"
    if s1: "resolve_state rf (normalize_state state') st = (st1, Inr s')"
      and r': "r' ''state'' = Some state'" for state' s' st1
  proof -
    from ne(2) r' have n: "normalize_state state' \<noteq> name" by simp
    have "find_pks (\<lambda>l. loc_name l = normalize_state state \<and>
        location_type l = state_type rf) (locations st1) = [s]"
      using s1 k(1) by (rule state_step_keeps) (use k(1) in auto)
    moreover have "find_pks (\<lambda>l. loc_name l = city \<and> location_type l = city_type rf \<and>
        parent l = Some s) (locations st1) = [c]"
      using s1 k(2) by (rule state_step_keeps) simp
    moreover have "find_pks (\<lambda>l. loc_name l = name) (locations st1) = [site]"
      using s1 k(3) by (rule state_step_keeps) (use n in simp)
    moreover from s1 have "grows st st1" by (rule resolve_state_grows)
    with k(4) have "get_location_type name st1 = Inr t"
      using get_location_type_cong [of st1 st name] by (simp add: grows_def)
    ultimately show ?thesis by (simp add: resolved_def)
  qed
  have after_city: "resolved rf st2 state city name s c site t"
    if res1: "resolved rf st1 state city name s c site t"
      and s2: "resolve_city rf city' fs s' st1 = (st2, Inr c')"
      and r': "r' ''city'' = Some city'" for city' fs s' c' st1 st2
  proof -
    from ne(1) r' have n: "city' \<noteq> name" by simp
    from res1 have k1: "find_pks (\<lambda>l. loc_name l = normalize_state state \<and>
        location_type l = state_type rf) (locations st1) = [s]"
      "find_pks (\<lambda>l. loc_name l = city \<and> location_type l = city_type rf \<and> parent l = Some s)
        (locations st1) = [c]"
      "find_pks (\<lambda>l. loc_name l = name) (locations st1) = [site]"
      "get_location_type name st1 = Inr t"
      by (simp_all add: resolved_def)
    have "find_pks (\<lambda>l. loc_name l = normalize_state state \<and>
        location_type l = state_type rf) (locations st2) = [s]"
      using s2 k1(1) by (rule city_step_keeps) (use ty in simp)
    moreover have "find_pks (\<lambda>l. loc_name l = city \<and> location_type l = city_type rf \<and>
        parent l = Some s) (locations st2) = [c]"
      using s2 k1(2) by (rule city_step_keeps) (use k1(2) in auto)
    moreover have "find_pks (\<lambda>l. loc_name l = name) (locations st2) = [site]"
      using s2 k1(3) by (rule city_step_keeps) (use n in simp)
    moreover from s2 have "grows st1 st2" by (rule resolve_city_grows)
    with k1(4) have "get_location_type name st2 = Inr t"
      using get_location_type_cong [of st2 st1 name] by (simp add: grows_def)
    ultimately show ?thesis by (simp add: resolved_def)
  qed
  from assms(1) show ?thesis
  proof (cases rule: row_body_Inl_steps)
    case none
    with res show ?thesis by simp
  next
    case (state state' s')
    from state(2,1) show ?thesis by (rule after_state)
  next
    case (city state' city' s' c' st1)
    from city(3,1) have "resolved rf st1 state city name s c site t" by (rule after_state)
    then show ?thesis using city(4,2) by (rule after_city)
  qed
qed

lemma run_rows_Inl:
  assumes "run_rows rf rows acc st = (st', Inl e)"
  shows "\<exists>earlier r later st1 acc1 st2.
           rows = earlier @ r # later \<and> run_rows rf earlier acc st = (st1, Inr acc1) \<and>
           row_body rf r st1 = (st2, Inl e) \<and>
           st' = log_error (''Error processing location '' @ row_get r ''name'' [] @ '': '' @
                            exn_str e) st2"
  using assms
proof (induction rows arbitrary: acc st)
  case Nil
  then show ?case by simp
next
  case (Cons r rows)
  obtain st1 res where step: "process_row rf r st = (st1, res)"
    by (cases "process_row rf r st")
  show ?case
  proof (cases res)
    case (Inl e')
    with step Cons.prems have "e' = e" "st1 = st'" by simp_all
    with step Inl obtain st2 where "row_body rf r st = (st2, Inl e)"
      "st' = log_error (''Error processing location '' @ row_get r ''name'' [] @ '': '' @
                        exn_str e) st2"
      by (auto simp: process_row_def split: prod.splits sum.splits)
    then have "r # rows = [] @ r # rows \<and> run_rows rf [] acc st = (st, Inr acc) \<and>
           row_body rf r st = (st2, Inl e) \<and>
           st' = log_error (''Error processing location '' @ row_get r ''name'' [] @ '': '' @
                            exn_str e) st2"
      by simp
    then show ?thesis by blast
  next
    case (Inr site)
    with step Cons.prems have "run_rows rf rows (acc @ [site]) st1 = (st', Inl e)"
      by simp
    from Cons.IH [OF this] obtain earlier r' later st_a acc_a st_b where
      "rows = earlier @ r' # later" "run_rows rf earlier (acc @ [site]) st1 = (st_a, Inr acc_a)"
      "row_body rf r' st_a = (st_b, Inl e)"
      "st' = log_error (''Error processing location '' @ row_get r' ''name'' [] @ '': '' @
                        exn_str e) st_b"
      by blast
    with step Inr have "r # rows = (r # earlier) @ r' # later \<and>
        run_rows rf (r # earlier) acc st = (st_a, Inr acc_a) \<and>
        row_body rf r' st_a = (st_b, Inl e) \<and>
        st' = log_error (''Error processing location '' @ row_get r' ''name'' [] @ '': '' @
                        exn_str e) st_b"
      by simp
    then show ?thesis by blast
  qed
qed

lemma run_rows_classified:
  assumes "run_rows rf rows acc st = (st', Inr acc')"
  shows "\<forall>r \<in> set rows. \<exists>name. r ''name'' = Some name \<and>
           (endswith name ''-DC'' \<or> endswith name ''-BR'')"
  using assms
proof (induction rows arbitrary: acc st)
  case Nil
  then show ?case by simp
next
  case (Cons r rows)
  from Cons.prems obtain st1 site where step: "process_row rf r st = (st1, Inr site)"
    and rest: "run_rows rf rows (acc @ [site]) st1 = (st', Inr acc')"
    by (auto split: prod.splits sum.splits)
  from step have "row_body rf r st = (st1, Inr site)"
    by (simp add: process_row_Inr)
  then have "\<exists>name. r ''name'' = Some name \<and> (endswith name ''-DC'' \<or> endswith name ''-BR'')"
    by (blast dest: row_body_Inr get_location_type_Inr_suffix)
  with Cons.IH [OF rest] show ?case by simp
qed

lemma cities_apartD:
  assumes "cities_apart rows" and "r \<in> set rows" and "r' \<in> set rows"
    and "r' ''name'' = Some name"
  shows "r ''city'' \<noteq> Some name"
proof -
  from assms(1,2,3) have "case r ''city'' of None \<Rightarrow> True | Some city \<Rightarrow> r' ''name'' \<noteq> Some city"
    by (simp add: cities_apart_def list_all_iff)
  with assms(4) show ?thesis by (cases "r ''city''") auto
qed

lemma state_never_site:
  "endswith name ''-DC'' \<or> endswith name ''-BR'' \<Longrightarrow>
   map_option normalize_state (r ''state'') \<noteq> Some name"
  using normalize_state_no_site_suffix by (cases "r ''state''") auto

lemma cities_apart_names_apart:
  assumes "cities_apart rows" and "set pre \<subseteq> set rows"
    and "\<forall>r \<in> set pre. \<exists>name. r ''name'' = Some name \<and>
           (endswith name ''-DC'' \<or> endswith name ''-BR'')"
  shows "names_apart pre"
proof -
  have "apart r r'" if "r \<in> set pre" "r' \<in> set pre" for r r'
  proof -
    from that(2) assms(3) obtain name where n: "r' ''name'' = Some name"
      "endswith name ''-DC'' \<or> endswith name ''-BR''"
      by blast
    from assms(2) that have "r \<in> set rows" "r' \<in> set rows" by auto
    with assms(1) have "r ''city'' \<noteq> Some name"
      using n(1) by (rule cities_apartD)
    moreover from n(2) have "map_option normalize_state (r ''state'') \<noteq> Some name"
      by (rule state_never_site)
    ultimately show ?thesis using n(1) by (simp add: apart_def)
  qed
  then show ?thesis by (simp add: names_apart_def list_all_iff)
qed

lemma resolved_cong:
  assumes "locations st' = locations st" and "location_types st' = location_types st"
  shows "resolved rf st' state city name s c site t = resolved rf st state city name s c site t"
  using assms get_location_type_cong [of st' st name] by (simp add: resolved_def)

text \<open>
  Rows that run on a store where each of them is resolved, and where the site of each
  name holds what the last row of that name writes, leave every location as it is.
\<close>

lemma rerun_same_locations:
  assumes written: "\<forall>xs r ys name.
        rows = xs @ r # ys \<and> r ''name'' = Some name \<and>
        (\<forall>r' \<in> set ys. r' ''name'' \<noteq> Some name) \<longrightarrow>
        (\<exists>state city s c site t.
           r ''state'' = Some state \<and> r ''city'' = Some city \<and>
           resolved rf st1 state city name s c site t \<and>
           locations st1 ! site =
             \<lparr>loc_name = name, location_type = t, status = active_status rf,
              parent = Some c\<rparr>)"
    and run2: "run_rows rf rows acc st1 = (st2, Inr acc2)"
    and ty: "state_type rf \<noteq> city_type rf" and ap: "names_apart rows"
    and len: "length (locations st2) = length (locations st1)"
  shows "locations st2 = locations st1"
proof (rule nth_equalityI [OF len])
  fix pk assume "pk < length (locations st2)"
  with len have pk: "pk < length (locations st1)" by simp
  show "locations st2 ! pk = locations st1 ! pk"
  proof (cases "\<exists>r \<in> set rows. r ''name'' = Some (loc_name (locations st1 ! pk))")
    case False
    then have "\<forall>r \<in> set rows. r ''name'' \<noteq> Some (loc_name (locations st1 ! pk))"
      by simp
    with run2 pk show ?thesis by (rule run_rows_frame)
  next
    case True
    define name where "name = loc_name (locations st1 ! pk)"
    from split_list_last_prop [OF True] obtain xs r ys where rows: "rows = xs @ r # ys"
      and r: "r ''name'' = Some name"
      and last: "\<forall>r' \<in> set ys. r' ''name'' \<noteq> Some name"
      unfolding name_def by auto
    from written rows r last obtain state city s c site t where
      f: "r ''state'' = Some state" "r ''city'' = Some city"
      and res1: "resolved rf st1 state city name s c site t"
      and rec1: "locations st1 ! site =
        \<lparr>loc_name = name, location_type = t, status = active_status rf, parent = Some c\<rparr>"
      by blast
    from run2 ty ap r last obtain state' city' s' c' site' t' where
      f': "r ''state'' = Some state'" "r ''city'' = Some city'"
      and res2: "resolved rf st2 state' city' name s' c' site' t'"
      and rec2: "locations st2 ! site' =
        \<lparr>loc_name = name, location_type = t', status = active_status rf, parent = Some c'\<rparr>"
      unfolding rows by (blast dest: run_rows_last_write)
    from ap have "\<forall>r' \<in> set rows. apart r r' \<and> apart r' r"
      unfolding rows by (auto intro: names_apartD)
    with run2 res1 f r ty have "resolved rf st2 state city name s c site t"
      by (rule run_rows_keeps_resolved)
    with res2 f f' have "s' = s \<and> c' = c \<and> site' = site \<and> t' = t"
      by (auto dest: resolved_unique)
    with rec1 rec2 have "locations st2 ! site = locations st1 ! site" by simp
    moreover from res1 pk have "pk = site"
      by (auto simp: resolved_def find_pks_one name_def)
    ultimately show ?thesis by simp
  qed
qed

lemma rerun_rows:
  assumes all_resolved: "\<forall>r \<in> set rows. \<exists>state city name s c site t.
        r ''state'' = Some state \<and> r ''city'' = Some city \<and> r ''name'' = Some name \<and>
        resolved rf st1 state city name s c site t"
    and written: "\<forall>xs r ys name.
        rows = xs @ r # ys \<and> r ''name'' = Some name \<and>
        (\<forall>r' \<in> set ys. r' ''name'' \<noteq> Some name) \<longrightarrow>
        (\<exists>state city s c site t.
           r ''state'' = Some state \<and> r ''city'' = Some city \<and>
           resolved rf st1 state city name s c site t \<and>
           locations st1 ! site =
             \<lparr>loc_name = name, location_type = t, status = active_status rf,
              parent = Some c\<rparr>)"
    and ty: "state_type rf \<noteq> city_type rf" and ap: "names_apart rows"
  shows "\<exists>acc2. run_rows rf rows acc st1 =
           (st1\<lparr>logger := logger st1 @ map updated_line rows\<rparr>, Inr (acc @ acc2)) \<and>
         length acc2 = length rows"
proof -
  from run_rows_on_resolved [OF all_resolved ty ap subset_refl, of acc]
  obtain st2 acc2 where run2: "run_rows rf rows acc st1 = (st2, Inr (acc @ acc2))"
    and n2: "length acc2 = length rows"
    and len: "length (locations st2) = length (locations st1)"
    and log: "logger st2 = logger st1 @ map updated_line rows"
    by blast
  from written run2 ty ap len have "locations st2 = locations st1"
    by (rule rerun_same_locations)
  moreover from run2 have "grows st1 st2" by (rule run_rows_grows)
  ultimately have "st2 = st1\<lparr>logger := logger st1 @ map updated_line rows\<rparr>"
    using log by (simp add: grows_def)
  with run2 n2 show ?thesis by blast
qed

lemma summary_length: "length a = length b \<Longrightarrow> summary a = summary b"
  by (simp add: summary_def)

lemma failed_row_keeps_written:
  assumes body: "row_body rf r st_a = (st_b, Inl e)" and ty: "state_type rf \<noteq> city_type rf"
    and res: "resolved rf st_a state city name s c site t"
    and ne: "r ''city'' \<noteq> Some name" "map_option normalize_state (r ''state'') \<noteq> Some name"
    and same: "locations st1 = locations st_b" "location_types st1 = location_types st_b"
  shows "resolved rf st1 state city name s c site t \<and>
         locations st1 ! site = locations st_a ! site"
proof -
  from body res ty ne have "resolved rf st_b state city name s c site t"
    by (rule row_body_Inl_keeps_resolved)
  with same have "resolved rf st1 state city name s c site t"
    using resolved_cong [of st1 st_b rf state city name s c site t] by simp
  moreover from res have "site < length (locations st_a)"
    by (auto simp: resolved_def dest: find_pks_single)
  with row_body_Inl_prefix [OF body] have "locations st_b ! site = locations st_a ! site"
    by (auto simp: prefix_def nth_append)
  ultimately show ?thesis using same by simp
qed

text \<open>
  Claim C2, as the code has it. Take rows in which no site name is the city of a row, and
  let their first run leave the store \<open>st1\<close>. Then the second run, on \<open>st1\<close>, ends as
  the first did: with the same message, or with the same exception at the same row, the
  row \<open>r\<close> behind rows \<open>earlier\<close> that succeed in both runs and whose body raises \<open>e\<close>
  in both runs, or with the same failure to find the reference records. The second run
  leaves every table as it is: no State, City or site record is created, and no record is
  changed. Every get-or-create it reaches finds its record: the log gains one line
  \<open>Updated location\<close> per row that is processed, the error line again when the run
  aborts, and no other line. After a run that succeeds, each site's record holds the
  values computed from the last row of its name: the type classified from the name, the
  status Active and, as parent, the City that this row's lookups find under this row's
  State.
\<close>

theorem second_run_changes_no_location:
  assumes "run rows st = (st1, res)" and "cities_apart rows"
  shows "(\<forall>msg. res = Inr msg \<longrightarrow>
           run rows st1 = (st1\<lparr>logger := logger st1 @ map updated_line rows\<rparr>, Inr msg) \<and>
           (\<exists>rf. get_refs st1 = Inr rf \<and>
             (\<forall>xs r ys name.
                rows = xs @ r # ys \<and> r ''name'' = Some name \<and>
                (\<forall>r' \<in> set ys. r' ''name'' \<noteq> Some name) \<longrightarrow>
                (\<exists>state city s c site t.
                   r ''state'' = Some state \<and> r ''city'' = Some city \<and>
                   resolved rf st1 state city name s c site t \<and>
                   locations st1 ! site =
                     \<lparr>loc_name = name, location_type = t, status = active_status rf,
                      parent = Some c\<rparr>)))) \<and>
         (\<forall>e. res = Inl e \<longrightarrow>
           get_refs st = Inl e \<and> run rows st1 = (st1, Inl e) \<or>
           (\<exists>rf earlier r later st_a sites st_b sites'.
              rows = earlier @ r # later \<and>
              get_refs st = Inr rf \<and>
              run_rows rf earlier [] st = (st_a, Inr sites) \<and>
              row_body rf r st_a = (st_b, Inl e) \<and>
              st1 = st_b\<lparr>logger := logger st_b @
                      [(ERROR, ''Error processing location '' @ row_get r ''name'' [] @ '': '' @
                               exn_str e)]\<rparr> \<and>
              run_rows rf earlier [] st1 =
                (st1\<lparr>logger := logger st1 @ map updated_line earlier\<rparr>, Inr sites') \<and>
              row_body rf r (st1\<lparr>logger := logger st1 @ map updated_line earlier\<rparr>) =
                (st1\<lparr>logger := logger st1 @ map updated_line earlier\<rparr>, Inl e) \<and>
              run rows st1 =
                (st1\<lparr>logger := logger st1 @ map updated_line earlier @
                       [(ERROR, ''Error processing location '' @ row_get r ''name'' [] @ '': '' @
                                exn_str e)]\<rparr>,
                 Inl e)))"
proof (cases "get_refs st")
  case (Inl e)
  with assms(1) have "st1 = st" "res = Inl e"
    by (simp_all add: run_def run_collect_def)
  with Inl show ?thesis by (simp add: run_def run_collect_def)
next
  case (Inr rf)
  then have ty: "state_type rf \<noteq> city_type rf" by (rule get_refs_types_differ)
  obtain r0 where run1: "run_rows rf rows [] st = (st1, r0)"
    using assms(1) Inr by (auto simp: run_def run_collect_def split: prod.splits sum.splits)
  then have "grows st st1" by (rule run_rows_grows)
  with Inr have rf1: "get_refs st1 = Inr rf" by (simp add: get_refs_grows)
  show ?thesis
  proof (cases r0)
    case ok: (Inr acc1)
    with run1 assms(1) Inr have res: "res = Inr (summary acc1)"
      by (simp add: run_def run_collect_def)
    from run1 ok have run1': "run_rows rf rows [] st = (st1, Inr acc1)" by simp
    from run1' have "\<forall>r \<in> set rows. \<exists>name. r ''name'' = Some name \<and>
           (endswith name ''-DC'' \<or> endswith name ''-BR'')"
      by (rule run_rows_classified)
    with assms(2) subset_refl have ap: "names_apart rows"
      by (rule cities_apart_names_apart)
    from run1' ty ap have all_resolved: "\<forall>r \<in> set rows. \<exists>state city name s c site t.
           r ''state'' = Some state \<and> r ''city'' = Some city \<and> r ''name'' = Some name \<and>
           resolved rf st1 state city name s c site t"
      by (rule run_rows_resolves_all) simp
    have written: "\<forall>xs r ys name.
        rows = xs @ r # ys \<and> r ''name'' = Some name \<and>
        (\<forall>r' \<in> set ys. r' ''name'' \<noteq> Some name) \<longrightarrow>
        (\<exists>state city s c site t.
           r ''state'' = Some state \<and> r ''city'' = Some city \<and>
           resolved rf st1 state city name s c site t \<and>
           locations st1 ! site =
             \<lparr>loc_name = name, location_type = t, status = active_status rf,
              parent = Some c\<rparr>)"
    proof (intro allI impI)
      fix xs r ys name
      assume a: "rows = xs @ r # ys \<and> r ''name'' = Some name \<and>
        (\<forall>r' \<in> set ys. r' ''name'' \<noteq> Some name)"
      with run1' ap have "run_rows rf (xs @ r # ys) [] st = (st1, Inr acc1)"
        "names_apart (xs @ r # ys)"
        by simp_all
      then show "\<exists>state city s c site t.
           r ''state'' = Some state \<and> r ''city'' = Some city \<and>
           resolved rf st1 state city name s c site t \<and>
           locations st1 ! site =
             \<lparr>loc_name = name, location_type = t, status = active_status rf,
              parent = Some c\<rparr>"
        using ty a by (intro run_rows_last_write [where xs = xs and ys = ys and acc = "[]"
              and st = st and acc' = acc1]) simp_all
    qed
    from rerun_rows [OF all_resolved written ty ap, of "[]"] obtain acc2 where
      run2: "run_rows rf rows [] st1 =
        (st1\<lparr>logger := logger st1 @ map updated_line rows\<rparr>, Inr acc2)"
      and n2: "length acc2 = length rows"
      by auto
    from run_rows_Inr [OF run1'] n2 have "summary acc2 = summary acc1"
      by (auto intro: summary_length)
    with run2 rf1 have "run rows st1 =
        (st1\<lparr>logger := logger st1 @ map updated_line rows\<rparr>, Inr (summary acc1))"
      by (simp add: run_def run_collect_def)
    moreover from rf1 written have "\<exists>rf. get_refs st1 = Inr rf \<and>
             (\<forall>xs r ys name.
                rows = xs @ r # ys \<and> r ''name'' = Some name \<and>
                (\<forall>r' \<in> set ys. r' ''name'' \<noteq> Some name) \<longrightarrow>
                (\<exists>state city s c site t.
                   r ''state'' = Some state \<and> r ''city'' = Some city \<and>
                   resolved rf st1 state city name s c site t \<and>
                   locations st1 ! site =
                     \<lparr>loc_name = name, location_type = t, status = active_status rf,
                      parent = Some c\<rparr>))"
      by (intro exI [of _ rf] conjI)
    ultimately show ?thesis using res by simp
  next
    case failed: (Inl e)
    with run1 assms(1) Inr have res: "res = Inl e"
      by (simp add: run_def run_collect_def)
    from run1 failed have "run_rows rf rows [] st = (st1, Inl e)" by simp
    from run_rows_Inl [OF this] obtain earlier r later st_a acc_a st_b where
      rows: "rows = earlier @ r # later"
      and run_a: "run_rows rf earlier [] st = (st_a, Inr acc_a)"
      and body: "row_body rf r st_a = (st_b, Inl e)"
      and st1: "st1 = log_error (''Error processing location '' @ row_get r ''name'' [] @
                                  '': '' @ exn_str e) st_b"
      by blast
    from st1 have same: "locations st1 = locations st_b" "location_types st1 = location_types st_b"
      by (simp_all add: log_error_def)
    from run_a have cl: "\<forall>r \<in> set earlier. \<exists>name. r ''name'' = Some name \<and>
           (endswith name ''-DC'' \<or> endswith name ''-BR'')"
      by (rule run_rows_classified)
    have "set earlier \<subseteq> set rows" by (auto simp: rows)
    with assms(2) have ap: "names_apart earlier"
      using cl by (rule cities_apart_names_apart)
    have ne: "r ''city'' \<noteq> Some name \<and> map_option normalize_state (r ''state'') \<noteq> Some name"
      if "r' \<in> set earlier" "r' ''name'' = Some name" for r' name
    proof -
      from that(1) have "r \<in> set rows" "r' \<in> set rows" by (simp_all add: rows)
      with assms(2) have "r ''city'' \<noteq> Some name"
        using that(2) by (rule cities_apartD)
      moreover from cl that have "endswith name ''-DC'' \<or> endswith name ''-BR''" by auto
      then have "map_option normalize_state (r ''state'') \<noteq> Some name"
        by (rule state_never_site)
      ultimately show ?thesis by simp
    qed
    from run_a ty ap have "\<forall>r \<in> set earlier. \<exists>state city name s c site t.
           r ''state'' = Some state \<and> r ''city'' = Some city \<and> r ''name'' = Some name \<and>
           resolved rf st_a state city name s c site t"
      by (rule run_rows_resolves_all) simp
    then have all_resolved: "\<forall>r \<in> set earlier. \<exists>state city name s c site t.
           r ''state'' = Some state \<and> r ''city'' = Some city \<and> r ''name'' = Some name \<and>
           resolved rf st1 state city name s c site t"
    proof (intro ballI)
      fix r' assume r': "r' \<in> set earlier"
      assume "\<forall>r \<in> set earlier. \<exists>state city name s c site t.
           r ''state'' = Some state \<and> r ''city'' = Some city \<and> r ''name'' = Some name \<and>
           resolved rf st_a state city name s c site t"
      with r' obtain state city name s c site t where f: "r' ''state'' = Some state"
        "r' ''city'' = Some city" "r' ''name'' = Some name"
        and res_a: "resolved rf st_a state city name s c site t"
        by blast
      from r' f(3) have "r ''city'' \<noteq> Some name"
        "map_option normalize_state (r ''state'') \<noteq> Some name"
        using ne by blast+
      with body ty res_a have "resolved rf st1 state city name s c site t \<and>
         locations st1 ! site = locations st_a ! site"
        using same by (rule failed_row_keeps_written)
      with f show "\<exists>state city name s c site t.
           r' ''state'' = Some state \<and> r' ''city'' = Some city \<and> r' ''name'' = Some name \<and>
           resolved rf st1 state city name s c site t"
        by blast
    qed
    have written: "\<forall>xs r' ys name.
        earlier = xs @ r' # ys \<and> r' ''name'' = Some name \<and>
        (\<forall>r'' \<in> set ys. r'' ''name'' \<noteq> Some name) \<longrightarrow>
        (\<exists>state city s c site t.
           r' ''state'' = Some state \<and> r' ''city'' = Some city \<and>
           resolved rf st1 state city name s c site t \<and>
           locations st1 ! site =
             \<lparr>loc_name = name, location_type = t, status = active_status rf,
              parent = Some c\<rparr>)"
    proof (intro allI impI)
      fix xs r' ys name
      assume a: "earlier = xs @ r' # ys \<and> r' ''name'' = Some name \<and>
        (\<forall>r'' \<in> set ys. r'' ''name'' \<noteq> Some name)"
      with run_a ap have "run_rows rf (xs @ r' # ys) [] st = (st_a, Inr acc_a)"
        "names_apart (xs @ r' # ys)"
        by simp_all
      then have "\<exists>state city s c site t.
           r' ''state'' = Some state \<and> r' ''city'' = Some city \<and>
           resolved rf st_a state city name s c site t \<and>
           locations st_a ! site =
             \<lparr>loc_name = name, location_type = t, status = active_status rf,
              parent = Some c\<rparr>"
        using ty a by (intro run_rows_last_write [where xs = xs and ys = ys and acc = "[]"
              and st = st and acc' = acc_a]) simp_all
      then obtain state city s c site t where f: "r' ''state'' = Some state"
        "r' ''city'' = Some city"
        and res_a: "resolved rf st_a state city name s c site t"
        and rec_a: "locations st_a ! site =
             \<lparr>loc_name = name, location_type = t, status = active_status rf,
              parent = Some c\<rparr>"
        by blast
      from a have "r' \<in> set earlier" by simp
      with a have "r ''city'' \<noteq> Some name" "map_option normalize_state (r ''state'') \<noteq> Some name"
        using ne by blast+
      with body ty res_a have "resolved rf st1 state city name s c site t \<and>
         locations st1 ! site = locations st_a ! site"
        using same by (rule failed_row_keeps_written)
      with f rec_a show "\<exists>state city s c site t.
           r' ''state'' = Some state \<and> r' ''city'' = Some city \<and>
           resolved rf st1 state city name s c site t \<and>
           locations st1 ! site =
             \<lparr>loc_name = name, location_type = t, status = active_status rf,
              parent = Some c\<rparr>"
        by auto
    qed
    define st2 where "st2 = st1\<lparr>logger := logger st1 @ map updated_line earlier\<rparr>"
    from rerun_rows [OF all_resolved written ty ap, of "[]"] obtain acc2 where
      run2: "run_rows rf earlier [] st1 = (st2, Inr acc2)"
      unfolding st2_def by auto
    have "locations st2 = locations st_b" "location_types st2 = location_types st_b"
      using same by (simp_all add: st2_def)
    with body ty have "row_body rf r st2 = (st2, Inl e)"
      by (rule row_body_again)
    then have "process_row rf r st2 =
        (st1\<lparr>logger := logger st1 @ map updated_line earlier @
               [(ERROR, ''Error processing location '' @ row_get r ''name'' [] @ '': '' @
                        exn_str e)]\<rparr>, Inl e)"
      by (simp add: process_row_def log_error_def st2_def)
    with run2 rf1 have "run rows st1 =
        (st1\<lparr>logger := logger st1 @ map updated_line earlier @
               [(ERROR, ''Error processing location '' @ row_get r ''name'' [] @ '': '' @
                        exn_str e)]\<rparr>, Inl e)"
      by (simp add: run_def run_collect_def rows run_rows_append)
    moreover from st1 have "st1 = st_b\<lparr>logger := logger st_b @
                      [(ERROR, ''Error processing location '' @ row_get r ''name'' [] @ '': '' @
                               exn_str e)]\<rparr>"
      by (simp add: log_error_def)
    moreover note rows Inr run_a body run2 [unfolded st2_def]
      \<open>row_body rf r st2 = (st2, Inl e)\<close> [unfolded st2_def]
    ultimately have "(\<exists>rf earlier r later st_a sites st_b sites'.
          rows = earlier @ r # later \<and>
          get_refs st = Inr rf \<and>
          run_rows rf earlier [] st = (st_a, Inr sites) \<and>
          row_body rf r st_a = (st_b, Inl e) \<and>
          st1 = st_b\<lparr>logger := logger st_b @
                  [(ERROR, ''Error processing location '' @ row_get r ''name'' [] @ '': '' @
                           exn_str e)]\<rparr> \<and>
          run_rows rf earlier [] st1 =
            (st1\<lparr>logger := logger st1 @ map updated_line earlier\<rparr>, Inr sites') \<and>
          row_body rf r (st1\<lparr>logger := logger st1 @ map updated_line earlier\<rparr>) =
            (st1\<lparr>logger := logger st1 @ map updated_line earlier\<rparr>, Inl e) \<and>
          run rows st1 =
            (st1\<lparr>logger := logger st1 @ map updated_line earlier @
                   [(ERROR, ''Error processing location '' @ row_get r ''name'' [] @ '': '' @
                            exn_str e)]\<rparr>,
             Inl e))"
      by blast
    with res show ?thesis by simp
  qed
qed

theorem second_run_changes_no_location_witness:
  "cities_apart [hq_br_austin, hq_br_denver] \<and>
   run [hq_br_austin, hq_br_denver] reference_store =
     (relocated_store, Inr ''Successfully processed 2 locations'') \<and>
   run [hq_br_austin, hq_br_denver] relocated_store =
     (relocated_store
        \<lparr>logger := logger relocated_store @
           [(INFO, ''Updated location: HQ-BR in Austin, Texas''),
            (INFO, ''Updated location: HQ-BR in Denver, Colorado'')]\<rparr>,
      Inr ''Successfully processed 2 locations'') \<and>
   cities_apart abort_rows \<and>
   run abort_rows reference_store =
     (aborted_store, Inl (ValueError ''Location name BADNAME must end with either -DC or -BR'')) \<and>
   (\<exists>earlier r later.
      abort_rows = earlier @ r # later \<and>
      run abort_rows aborted_store =
        (aborted_store
           \<lparr>logger := logger aborted_store @ map updated_line earlier @
              [(ERROR, ''Error processing location '' @ row_get r ''name'' [] @ '': '' @
                       ''Location name BADNAME must end with either -DC or -BR'')]\<rparr>,
         Inl (ValueError ''Location name BADNAME must end with either -DC or -BR''))) \<and>
   run abort_rows aborted_store =
     (aborted_store
        \<lparr>logger := logger aborted_store @
           [(INFO, ''Updated location: HQ-BR in Austin, Texas''),
            (ERROR, ''Error processing location BADNAME: Location name BADNAME must end with either -DC or -BR'')]\<rparr>,
      Inl (ValueError ''Location name BADNAME must end with either -DC or -BR''))"
proof -
  have ap: "cities_apart [hq_br_austin, hq_br_denver]"
    by code_simp
  have ev: "run [hq_br_austin, hq_br_denver] reference_store =
      (relocated_store, Inr ''Successfully processed 2 locations'')"
    by code_simp
  have lines: "map updated_line [hq_br_austin, hq_br_denver] =
      [(INFO, ''Updated location: HQ-BR in Austin, Texas''),
       (INFO, ''Updated location: HQ-BR in Denver, Colorado'')]"
    by code_simp
  have ap': "cities_apart abort_rows"
    by code_simp
  have ev': "run abort_rows reference_store =
      (aborted_store, Inl (ValueError ''Location name BADNAME must end with either -DC or -BR''))"
    by code_simp
  have "get_refs reference_store \<noteq>
      Inl (ValueError ''Location name BADNAME must end with either -DC or -BR'')"
    by (simp add: get_refs_reference_store)
  with second_run_changes_no_location [OF ev' ap']
  have "\<exists>earlier r later.
      abort_rows = earlier @ r # later \<and>
      run abort_rows aborted_store =
        (aborted_store
           \<lparr>logger := logger aborted_store @ map updated_line earlier @
              [(ERROR, ''Error processing location '' @ row_get r ''name'' [] @ '': '' @
                       ''Location name BADNAME must end with either -DC or -BR'')]\<rparr>,
         Inl (ValueError ''Location name BADNAME must end with either -DC or -BR''))"
    by auto
  moreover have "run abort_rows aborted_store =
     (aborted_store
        \<lparr>logger := logger aborted_store @
           [(INFO, ''Updated location: HQ-BR in Austin, Texas''),
            (ERROR, ''Error processing location BADNAME: Location name BADNAME must end with either -DC or -BR'')]\<rparr>,
      Inl (ValueError ''Location name BADNAME must end with either -DC or -BR''))"
    by code_simp
  ultimately show ?thesis
    using ap ev lines ap' ev' second_run_changes_no_location [OF ev ap] by simp
qed

text \<open>
  The claim as it is written, for every CSV, fails on the row (X-DC, X-DC, TX): its first
  run creates the City X-DC and then, finding it by the site name, overwrites it into a
  Data Center. The second run finds no City X-DC under Texas, creates one, so the store
  has a City record more than before, and aborts on the two records of that name.
\<close>

theorem second_run_creates_city:
  "run [x_dc_row] reference_store = (x_dc_store, Inr ''Successfully processed 1 locations'') \<and>
   run [x_dc_row] x_dc_store =
     (x_dc_store_again, Inl (MultipleObjectsReturned ''Location'' 2)) \<and>
   find_pks (\<lambda>l. location_type l = 1) (locations x_dc_store) = [] \<and>
   find_pks (\<lambda>l. location_type l = 1) (locations x_dc_store_again) = [2]"
  by code_simp

end
